theory Spec2Isabelle
  imports Main "HOL-Library.Word"
begin

section \<open>The device tree, as the kernel's OF interface shows it to the driver\<close>

text \<open>
  The driver reads the device tree only through the kernel's \<^verbatim>\<open>of_*\<close> functions.
  A node carries named properties and an ordered list of child nodes. A property value
  is a list of strings, a list of phandle references with their argument cells (each
  reference already resolved to its target node, \<open>None\<close> for the empty phandle 0),
  or some other value. A possibly-NULL \<^verbatim>\<open>struct device_node *\<close> is a
  \<open>device_node option\<close>.
\<close>

datatype device_node =
    Device_Node (properties: "(string \<times> property) list") (child_nodes: "device_node list")
and property =
    Prop_Strings "string list"
  | Prop_Phandles "phandle_ref list"
  | Prop_Other
and phandle_ref =
    Phandle_Ref (target: "device_node option") (cells: "32 word list")

text \<open>\<^verbatim>\<open>struct of_phandle_args\<close>: target node, argument count, arguments.\<close>

record of_phandle_args =
  np :: device_node
  args_count :: int
  args :: "32 word list"

text \<open>\<^verbatim>\<open>struct platform_device\<close>, reduced to \<^verbatim>\<open>pdev->dev.of_node\<close>.\<close>

record platform_device =
  of_node :: "device_node option"

definition EPERM :: int where "EPERM = 1"
definition ENOENT :: int where "ENOENT = 2"
definition EINVAL :: int where "EINVAL = 22"
definition ENODATA :: int where "ENODATA = 61"
definition EILSEQ :: int where "EILSEQ = 84"

text \<open>\<^verbatim>\<open>of_find_property\<close>: NULL for a NULL node or an absent property.\<close>

fun of_find_property :: "device_node option \<Rightarrow> string \<Rightarrow> property option" where
  "of_find_property None name = None"
| "of_find_property (Some node) name = map_of (properties node) name"

text \<open>\<^verbatim>\<open>of_get_child_count\<close> and \<^verbatim>\<open>of_get_next_child\<close>: the latter returns the
  first child for \<^verbatim>\<open>prev == NULL\<close>, otherwise the sibling that follows \<open>prev\<close>, and
  NULL when there is none.\<close>

definition of_get_child_count :: "device_node \<Rightarrow> int" where
  "of_get_child_count node = int (length (child_nodes node))"

fun of_get_next_child :: "device_node \<Rightarrow> device_node option \<Rightarrow> device_node option" where
  "of_get_next_child node None =
     (case child_nodes node of [] \<Rightarrow> None | c # _ \<Rightarrow> Some c)"
| "of_get_next_child node (Some prev) =
     (case dropWhile (\<lambda>c. c \<noteq> prev) (child_nodes node) of
        _ # c # _ \<Rightarrow> Some c
      | _ \<Rightarrow> None)"

text \<open>\<^verbatim>\<open>of_property_read_string\<close>: the first string of the property, or a negative
  errno (absent, no value, not a string).\<close>

definition of_property_read_string :: "device_node option \<Rightarrow> string \<Rightarrow> int + string" where
  "of_property_read_string node name =
     (case of_find_property node name of
        None \<Rightarrow> Inl (- EINVAL)
      | Some (Prop_Strings []) \<Rightarrow> Inl (- ENODATA)
      | Some (Prop_Strings (s # _)) \<Rightarrow> Inr s
      | Some _ \<Rightarrow> Inl (- EILSEQ))"

text \<open>\<^verbatim>\<open>of_property_count_strings\<close>: the number of strings, or a negative errno.\<close>

definition of_property_count_strings :: "device_node option \<Rightarrow> string \<Rightarrow> int" where
  "of_property_count_strings node name =
     (case of_find_property node name of
        None \<Rightarrow> - EINVAL
      | Some (Prop_Strings []) \<Rightarrow> - ENODATA
      | Some (Prop_Strings ss) \<Rightarrow> int (length ss)
      | Some _ \<Rightarrow> - EILSEQ)"

text \<open>\<^verbatim>\<open>of_count_phandle_with_args\<close>: the number of references in the list, or a
  negative errno. The cells-name argument (\<^verbatim>\<open>"#dma-cells"\<close>) only tells the kernel how
  to split the cells among the references, which the model's property value already
  records.\<close>

definition of_count_phandle_with_args :: "device_node option \<Rightarrow> string \<Rightarrow> string \<Rightarrow> int" where
  "of_count_phandle_with_args node list_name cells_name =
     (case of_find_property node list_name of
        None \<Rightarrow> - ENOENT
      | Some (Prop_Phandles refs) \<Rightarrow> int (length refs)
      | Some _ \<Rightarrow> - EINVAL)"

text \<open>\<^verbatim>\<open>of_parse_phandle_with_args\<close>: the \<open>index\<close>-th reference, or a negative errno
  (\<^verbatim>\<open>-ENOENT\<close> for an absent property, an index past the end or an empty reference).\<close>

definition of_parse_phandle_with_args ::
    "device_node option \<Rightarrow> string \<Rightarrow> string \<Rightarrow> int \<Rightarrow> int + of_phandle_args" where
  "of_parse_phandle_with_args node list_name cells_name index =
     (case of_find_property node list_name of
        None \<Rightarrow> Inl (- ENOENT)
      | Some (Prop_Phandles refs) \<Rightarrow>
          if index < 0 then Inl (- EINVAL)
          else if int (length refs) \<le> index then Inl (- ENOENT)
          else (case target (refs ! nat index) of
                  None \<Rightarrow> Inl (- ENOENT)
                | Some n \<Rightarrow>
                    Inr \<lparr>np = n,
                         args_count = int (length (cells (refs ! nat index))),
                         args = cells (refs ! nat index)\<rparr>)
      | Some _ \<Rightarrow> Inl (- EINVAL))"

section \<open>axidma_of.c: parsing the DMA channels out of the device tree\<close>

datatype axidma_type = AXIDMA_DMA | AXIDMA_VDMA

datatype axidma_dir = AXIDMA_WRITE | AXIDMA_READ

text \<open>The fields of \<^verbatim>\<open>struct axidma_chan\<close> and \<^verbatim>\<open>struct axidma_device\<close> that
  axidma_of.c reads or writes. The counters and \<^verbatim>\<open>num_chans\<close> are C \<^verbatim>\<open>int\<close>s; a
  counter is incremented at most once per channel, so it stays below \<^verbatim>\<open>num_chans\<close>
  and cannot overflow, and the model keeps them as integers.\<close>

record axidma_chan =
  dir :: axidma_dir
  type :: axidma_type
  channel_id :: int

record axidma_device =
  num_dma_tx_chans :: int
  num_dma_rx_chans :: int
  num_vdma_tx_chans :: int
  num_vdma_rx_chans :: int
  num_chans :: int
  channels :: "axidma_chan list"

text \<open>
  Every error return of axidma_of.c, named after the message it logs with
  \<^verbatim>\<open>axidma_node_err\<close>; \<open>errno\<close> is the value the C function returns there.
\<close>

datatype of_error =
    No_Channel_Nodes          \<comment> \<open>"DMA does not have any channel nodes."\<close>
  | Too_Many_Channel_Nodes    \<comment> \<open>"DMA has more than two channel nodes."\<close>
  | Compatible_Missing        \<comment> \<open>"DMA channel is missing the 'compatible' property."\<close>
  | Compatible_Unreadable     \<comment> \<open>"Unable to read 'compatible' property."\<close>
  | Compatible_Invalid        \<comment> \<open>"DMA channel has an invalid 'compatible' property."\<close>
  | Dma_Names_Missing         \<comment> \<open>"Property 'dma-names' is missing."\<close>
  | Dmas_Missing              \<comment> \<open>"Property 'dmas' is missing."\<close>
  | Dma_Names_Length          \<comment> \<open>"Unable to get the 'dma-names' property length."\<close>
  | Dma_Names_Empty           \<comment> \<open>"'dma-names' property is empty."\<close>
  | Dmas_Length               \<comment> \<open>"Unable to get the 'dmas' property length."\<close>
  | Dmas_Empty                \<comment> \<open>"'dmas' property is empty."\<close>
  | Lengths_Differ            \<comment> \<open>"Length of 'dma-names' and 'dmas' properties differ."\<close>
  | Phandle_Unavailable int   \<comment> \<open>"Unable to get phandle %d from the 'dmas' property.", returns rc\<close>
  | Channel_Arg_Missing       \<comment> \<open>"Phandle %d ... is missing the channel direciton argument."\<close>
  | Channel_Arg_Invalid       \<comment> \<open>"Phandle %d ... has an invalid channel (argument 0)."\<close>

fun errno :: "of_error \<Rightarrow> int" where
  "errno (Phandle_Unavailable rc) = rc"
| "errno _ = - EINVAL"

text \<open>\<^verbatim>\<open>axidma_parse_compatible_property\<close>: writes \<^verbatim>\<open>chan->type\<close>, \<^verbatim>\<open>chan->dir\<close>
  and one counter of \<^verbatim>\<open>dev\<close>; the updated channel and device are returned.\<close>

definition axidma_parse_compatible_property ::
    "string \<Rightarrow> axidma_chan \<Rightarrow> axidma_device \<Rightarrow> of_error option \<times> axidma_chan \<times> axidma_device" where
  "axidma_parse_compatible_property compatible chan dev =
     (if compatible = ''xlnx,axi-dma-mm2s-channel'' then
        (None, chan\<lparr>type := AXIDMA_DMA, dir := AXIDMA_WRITE\<rparr>,
         dev\<lparr>num_dma_tx_chans := num_dma_tx_chans dev + 1\<rparr>)
      else if compatible = ''xlnx,axi-dma-s2mm-channel'' then
        (None, chan\<lparr>type := AXIDMA_DMA, dir := AXIDMA_READ\<rparr>,
         dev\<lparr>num_dma_rx_chans := num_dma_rx_chans dev + 1\<rparr>)
      else if compatible = ''xlnx,axi-vdma-mm2s-channel'' then
        (None, chan\<lparr>type := AXIDMA_VDMA, dir := AXIDMA_WRITE\<rparr>,
         dev\<lparr>num_vdma_tx_chans := num_vdma_tx_chans dev + 1\<rparr>)
      else if compatible = ''xlnx,axi-vdma-s2mm-channel'' then
        (None, chan\<lparr>type := AXIDMA_VDMA, dir := AXIDMA_READ\<rparr>,
         dev\<lparr>num_dma_rx_chans := num_dma_rx_chans dev + 1\<rparr>)
      else (Some Compatible_Invalid, chan, dev))"

text \<open>\<^verbatim>\<open>axidma_of_parse_channel\<close>.\<close>

definition axidma_of_parse_channel ::
    "device_node \<Rightarrow> int \<Rightarrow> axidma_chan \<Rightarrow> axidma_device
       \<Rightarrow> of_error option \<times> axidma_chan \<times> axidma_device" where
  "axidma_of_parse_channel dma_node channel chan dev =
     (if of_get_child_count dma_node < 1 then (Some No_Channel_Nodes, chan, dev)
      else if of_get_child_count dma_node > 2 then (Some Too_Many_Channel_Nodes, chan, dev)
      else
        let dma_chan_node = of_get_next_child dma_node None;
            dma_chan_node = (if channel = 1 then of_get_next_child dma_node dma_chan_node
                             else dma_chan_node)
        in if of_find_property dma_chan_node ''compatible'' = None
           then (Some Compatible_Missing, chan, dev)
           else (case of_property_read_string dma_chan_node ''compatible'' of
                   Inl rc \<Rightarrow> (Some Compatible_Unreadable, chan, dev)
                 | Inr compatible \<Rightarrow> axidma_parse_compatible_property compatible chan dev))"


text \<open>\<^verbatim>\<open>axidma_of_num_channels\<close>: the shared length of \<^verbatim>\<open>dma-names\<close> and
  \<^verbatim>\<open>dmas\<close>, or an error.\<close>

definition axidma_of_num_channels :: "platform_device \<Rightarrow> of_error + int" where
  "axidma_of_num_channels pdev =
     (let driver_node = of_node pdev in
      if of_find_property driver_node ''dma-names'' = None then Inl Dma_Names_Missing
      else if of_find_property driver_node ''dmas'' = None then Inl Dmas_Missing
      else
        let num_dma_names = of_property_count_strings driver_node ''dma-names'' in
        if num_dma_names < 0 then Inl Dma_Names_Length
        else if num_dma_names = 0 then Inl Dma_Names_Empty
        else
          let num_dmas = of_count_phandle_with_args driver_node ''dmas'' ''#dma-cells'' in
          if num_dmas < 0 then Inl Dmas_Length
          else if num_dmas = 0 then Inl Dmas_Empty
          else if num_dma_names \<noteq> num_dmas then Inl Lengths_Differ
          else Inr num_dma_names)"

text \<open>
  The body of the loop of \<^verbatim>\<open>axidma_of_parse_dma_nodes\<close> for channel \<open>i\<close>. The C
  passes \<^verbatim>\<open>&dev->channels[i]\<close> and \<^verbatim>\<open>dev\<close> to \<^verbatim>\<open>axidma_of_parse_channel\<close>; the
  model passes the entry and the device and stores the returned entry back at \<open>i\<close>.
  The C reads \<^verbatim>\<open>args[0]\<close> before it checks \<^verbatim>\<open>args_count\<close> but uses the value only
  after the check; the model reads it after the check. The caller has allocated
  \<^verbatim>\<open>dev->channels\<close> with \<^verbatim>\<open>dev->num_chans\<close> entries.
\<close>

definition parse_dma_node ::
    "platform_device \<Rightarrow> int \<Rightarrow> axidma_device \<Rightarrow> of_error option \<times> axidma_device" where
  "parse_dma_node pdev i dev =
     (let driver_node = of_node pdev in
      case of_parse_phandle_with_args driver_node ''dmas'' ''#dma-cells'' i of
        Inl rc \<Rightarrow> (Some (Phandle_Unavailable rc), dev)
      | Inr phandle_args \<Rightarrow>
          let dma_node = np phandle_args in
          if args_count phandle_args < 1 then (Some Channel_Arg_Missing, dev)
          else
            let channel = sint (args phandle_args ! 0) in
            if channel \<noteq> 0 \<and> channel \<noteq> 1 then (Some Channel_Arg_Invalid, dev)
            else
              (case axidma_of_parse_channel dma_node channel (channels dev ! nat i) dev of
                 (Some e, chan, dev') \<Rightarrow>
                   (Some e, dev'\<lparr>channels := (channels dev')[nat i := chan]\<rparr>)
               | (None, chan, dev') \<Rightarrow>
                   (None, dev'\<lparr>channels :=
                             (channels dev')[nat i := chan\<lparr>channel_id := i\<rparr>]\<rparr>)))"

lemma parse_compatible_num_chans:
  "axidma_parse_compatible_property c chan dev = (r, chan', dev')
     \<Longrightarrow> num_chans dev' = num_chans dev \<and> channels dev' = channels dev"
  by (auto simp: axidma_parse_compatible_property_def split: if_splits)

lemma parse_channel_num_chans:
  "axidma_of_parse_channel n c chan dev = (r, chan', dev')
     \<Longrightarrow> num_chans dev' = num_chans dev \<and> channels dev' = channels dev"
  by (auto simp: axidma_of_parse_channel_def Let_def
           split: if_splits sum.splits dest: parse_compatible_num_chans)

lemma parse_dma_node_num_chans:
  "parse_dma_node pdev i dev = (r, dev') \<Longrightarrow> num_chans dev' = num_chans dev"
  by (auto simp: parse_dma_node_def Let_def
           split: if_splits sum.splits prod.splits option.splits
           dest: parse_channel_num_chans)

text \<open>The loop \<^verbatim>\<open>for (i = ...; i < dev->num_chans; i++)\<close>, from \<open>i\<close> on.\<close>

function parse_dma_nodes_from ::
    "platform_device \<Rightarrow> int \<Rightarrow> axidma_device \<Rightarrow> of_error option \<times> axidma_device" where
  "parse_dma_nodes_from pdev i dev =
     (if i < num_chans dev then
        (case parse_dma_node pdev i dev of
           (Some e, dev') \<Rightarrow> (Some e, dev')
         | (None, dev') \<Rightarrow> parse_dma_nodes_from pdev (i + 1) dev')
      else (None, dev))"
  by pat_completeness auto
termination
proof (relation "measure (\<lambda>(pdev, i, dev). nat (num_chans dev - i))")
  show "wf (measure (\<lambda>(pdev, i, dev). nat (num_chans dev - i)))" by simp
next
  fix pdev :: platform_device and i :: int and dev x dev' :: axidma_device
    and r :: "of_error option"
  assume "i < num_chans dev" and "(r, dev') = parse_dma_node pdev i dev"
  then have "num_chans dev' = num_chans dev"
    using parse_dma_node_num_chans [of pdev i dev r dev'] by simp
  with \<open>i < num_chans dev\<close>
  show "((pdev, i + 1, dev'), (pdev, i, dev))
          \<in> measure (\<lambda>(pdev, i, dev). nat (num_chans dev - i))"
    by simp
qed

declare parse_dma_nodes_from.simps [simp del]

text \<open>\<^verbatim>\<open>axidma_of_parse_dma_nodes\<close>.\<close>

definition axidma_of_parse_dma_nodes ::
    "platform_device \<Rightarrow> axidma_device \<Rightarrow> of_error option \<times> axidma_device" where
  "axidma_of_parse_dma_nodes pdev dev =
     parse_dma_nodes_from pdev 0
       (dev\<lparr>num_dma_tx_chans := 0, num_dma_rx_chans := 0,
            num_vdma_tx_chans := 0, num_vdma_rx_chans := 0\<rparr>)"

section \<open>axidma_chrdev.c: the character device\<close>

text \<open>
  A kernel address (\<^verbatim>\<open>void *\<close>) is a number, a possibly-NULL pointer an \<open>option\<close>.
  \<^verbatim>\<open>struct file\<close> is reduced to the two fields the file operations use.
  Flags are combined bitwise.
  \<^verbatim>\<open>O_EXCL\<close> has its value of \<^verbatim>\<open>asm-generic/fcntl.h\<close>, octal 200.
\<close>

unbundle bit_operations_syntax

type_synonym addr = nat

record struct_file =
  f_flags :: "32 word"
  private_data :: "addr option"

definition O_EXCL :: "32 word" where
  "O_EXCL = 0x80"

text \<open>Every error return of the file operations, named after the message logged with
  \<^verbatim>\<open>axidma_err\<close>; \<open>chrdev_errno\<close> is the value the C function returns there.\<close>

datatype chrdev_error =
    Not_Root            \<comment> \<open>"Only root can open this device.", \<^verbatim>\<open>-EPERM\<close>\<close>
  | Excl_Required       \<comment> \<open>"O_EXCL must be specified for open()", \<^verbatim>\<open>-EINVAL\<close>\<close>
  | Remap_Failed int    \<comment> \<open>"Unable to allocate address 0x%08lx, size %lu", returns rc\<close>

fun chrdev_errno :: "chrdev_error \<Rightarrow> int" where
  "chrdev_errno Not_Root = - EPERM"
| "chrdev_errno Excl_Required = - EINVAL"
| "chrdev_errno (Remap_Failed rc) = rc"

text \<open>
  \<^verbatim>\<open>axidma_open\<close>. The first argument is the value of \<^verbatim>\<open>capable(CAP_SYS_ADMIN)\<close> for
  the calling process, the second the module's global \<^verbatim>\<open>axidma_dev\<close>; the inode is not
  used.
\<close>

definition axidma_open :: "bool \<Rightarrow> addr option \<Rightarrow> struct_file \<Rightarrow> chrdev_error option \<times> struct_file" where
  "axidma_open capable_sys_admin axidma_dev file =
     (if \<not> capable_sys_admin then (Some Not_Root, file)
      else if f_flags file AND O_EXCL = 0 then (Some Excl_Required, file)
      else (None, file\<lparr>private_data := axidma_dev\<rparr>))"

text \<open>\<^verbatim>\<open>axidma_release\<close>: always returns 0.\<close>

definition axidma_release :: "struct_file \<Rightarrow> int \<times> struct_file" where
  "axidma_release file = (0, file\<lparr>private_data := None\<rparr>)"

text \<open>
  \<^verbatim>\<open>struct vm_area_struct\<close>, with \<^verbatim>\<open>unsigned long\<close> and \<^verbatim>\<open>pgprot_t\<close> as words of
  the machine's width, and the memory-management functions of the kernel that
  \<^verbatim>\<open>axidma_mmap\<close> calls: \<^verbatim>\<open>pgprot_noncached\<close>,
  \<^verbatim>\<open>__phys_to_pfn(virt_to_phys(addr))\<close> and \<^verbatim>\<open>remap_pfn_range\<close>, which returns 0 or
  a negative errno.
\<close>

record (overloaded) ('w::len) vm_area_struct =
  vm_start :: "'w word"
  vm_end :: "'w word"
  vm_pgoff :: "'w word"
  vm_page_prot :: "'w word"

record (overloaded) ('w::len) kernel_mm =
  pgprot_noncached :: "'w word \<Rightarrow> 'w word"
  virt_to_pfn :: "addr \<Rightarrow> 'w word"
  remap_pfn_range ::
    "'w vm_area_struct \<Rightarrow> 'w word \<Rightarrow> 'w word \<Rightarrow> 'w word \<Rightarrow> 'w word \<Rightarrow> int"

text \<open>
  \<^verbatim>\<open>axidma_mmap\<close>. The second argument is \<^verbatim>\<open>axidma_dev->dma_base_vaddr\<close>; the file is
  not used. The area is returned with its page protection updated.
\<close>

definition axidma_mmap ::
    "('w::len) kernel_mm \<Rightarrow> addr \<Rightarrow> 'w vm_area_struct
       \<Rightarrow> chrdev_error option \<times> 'w vm_area_struct" where
  "axidma_mmap mm dma_base_vaddr vma =
     (let alloc_size = vm_end vma - vm_start vma;
          vma = vma\<lparr>vm_page_prot := pgprot_noncached mm (vm_page_prot vma)\<rparr>;
          addr = dma_base_vaddr;
          rc = remap_pfn_range mm vma (vm_start vma) (virt_to_pfn mm addr) alloc_size
                 (vm_page_prot vma)
      in if rc < 0 then (Some (Remap_Failed rc), vma) else (None, vma))"

text \<open>
  The kernel around the file operations. Every \<^verbatim>\<open>open(2)\<close> of the device node makes
  a fresh \<^verbatim>\<open>struct file\<close> with the caller's flags and calls \<^verbatim>\<open>axidma_open\<close> on it;
  the file stays open when that returns 0 and is dropped otherwise. Closing an open
  file calls \<^verbatim>\<open>axidma_release\<close> and drops the file; the kernel does not look at the
  value that a release operation returns. The open files are the live sessions of the
  device.
\<close>

datatype request =
    Open bool "32 word"    \<comment> \<open>\<^verbatim>\<open>capable(CAP_SYS_ADMIN)\<close> of the caller, and its open flags\<close>
  | Release nat            \<comment> \<open>position of the file among the open files\<close>

fun chrdev_step ::
    "addr option \<Rightarrow> struct_file list \<Rightarrow> request \<Rightarrow> chrdev_error option \<times> struct_file list" where
  "chrdev_step axidma_dev files (Open capable_sys_admin flags) =
     (case axidma_open capable_sys_admin axidma_dev \<lparr>f_flags = flags, private_data = None\<rparr> of
        (Some e, file) \<Rightarrow> (Some e, files)
      | (None, file) \<Rightarrow> (None, files @ [file]))"
| "chrdev_step axidma_dev files (Release k) =
     (if k < length files then
        (case axidma_release (files ! k) of
           (rc, file) \<Rightarrow> (None, take k files @ drop (Suc k) files))
      else (None, files))"

fun chrdev_run ::
    "addr option \<Rightarrow> struct_file list \<Rightarrow> request list \<Rightarrow> chrdev_error option list \<times> struct_file list" where
  "chrdev_run axidma_dev files [] = ([], files)"
| "chrdev_run axidma_dev files (r # rs) =
     (case chrdev_step axidma_dev files r of
        (res, files') \<Rightarrow>
          (case chrdev_run axidma_dev files' rs of
             (ress, files'') \<Rightarrow> (res # ress, files'')))"

section \<open>Notions used to state the properties\<close>

text \<open>The child node that \<^verbatim>\<open>axidma_of_parse_channel\<close> goes to: the first child, or
  for channel 1 the one after it.\<close>

definition selected_child :: "device_node \<Rightarrow> int \<Rightarrow> device_node option" where
  "selected_child dma_node channel =
     (if channel = 1 then of_get_next_child dma_node (of_get_next_child dma_node None)
      else of_get_next_child dma_node None)"

text \<open>The type tag of the \<open>i\<close>-th declared channel: the \<^verbatim>\<open>compatible\<close> string of the
  child selected by the \<open>i\<close>-th reference of \<^verbatim>\<open>dmas\<close> and its first argument.\<close>

definition channel_tag :: "platform_device \<Rightarrow> int \<Rightarrow> string option" where
  "channel_tag pdev i =
     (case of_parse_phandle_with_args (of_node pdev) ''dmas'' ''#dma-cells'' i of
        Inl rc \<Rightarrow> None
      | Inr pa \<Rightarrow>
          (case args pa of
             [] \<Rightarrow> None
           | a # _ \<Rightarrow>
               (case of_property_read_string (selected_child (np pa) (sint a)) ''compatible'' of
                  Inl rc \<Rightarrow> None
                | Inr t \<Rightarrow> Some t)))"

text \<open>The number of declared channels among \<open>i, \<dots>, n - 1\<close> that carry tag \<open>t\<close>.\<close>

definition tagged :: "platform_device \<Rightarrow> string \<Rightarrow> int \<Rightarrow> int \<Rightarrow> int" where
  "tagged pdev t i n = int (length (filter (\<lambda>j. channel_tag pdev j = Some t) [i..n - 1]))"

text \<open>The four-entry vocabulary of type tags that the code compares against, with the
  engine type and direction of each.\<close>

definition tag_kind :: "string \<Rightarrow> (axidma_type \<times> axidma_dir) option" where
  "tag_kind t =
     (if t = ''xlnx,axi-dma-mm2s-channel'' then Some (AXIDMA_DMA, AXIDMA_WRITE)
      else if t = ''xlnx,axi-dma-s2mm-channel'' then Some (AXIDMA_DMA, AXIDMA_READ)
      else if t = ''xlnx,axi-vdma-mm2s-channel'' then Some (AXIDMA_VDMA, AXIDMA_WRITE)
      else if t = ''xlnx,axi-vdma-s2mm-channel'' then Some (AXIDMA_VDMA, AXIDMA_READ)
      else None)"

text \<open>The sum of the four channel counters of the device.\<close>

definition total_count :: "axidma_device \<Rightarrow> int" where
  "total_count dev =
     num_dma_tx_chans dev + num_dma_rx_chans dev + num_vdma_tx_chans dev + num_vdma_rx_chans dev"

text \<open>
  The vocabulary of type tags as the specification spells it, and the vocabulary that
  the code compares against.
\<close>

definition spec_vocabulary :: "string \<Rightarrow> bool" where
  "spec_vocabulary t =
     (t = ''mm2s-dma'' \<or> t = ''s2mm-dma'' \<or> t = ''mm2s-vdma'' \<or> t = ''s2mm-vdma'')"

definition code_vocabulary :: "string \<Rightarrow> bool" where
  "code_vocabulary t =
     (t = ''xlnx,axi-dma-mm2s-channel'' \<or> t = ''xlnx,axi-dma-s2mm-channel''
      \<or> t = ''xlnx,axi-vdma-mm2s-channel'' \<or> t = ''xlnx,axi-vdma-s2mm-channel'')"

text \<open>
  A well-formed description declaring \<open>n\<close> channels, for a given vocabulary of type
  tags, in the words of the specification: the list of names and the list of
  references are present, non-empty and both of length \<open>n\<close>, and each of the \<open>n\<close>
  references resolves to a DMA core node, carries exactly one argument, which is 0 or
  1, the core has exactly one or exactly two children, and the child that the argument
  selects carries a type tag drawn from the vocabulary.
\<close>

definition well_formed_reference :: "(string \<Rightarrow> bool) \<Rightarrow> platform_device \<Rightarrow> int \<Rightarrow> bool" where
  "well_formed_reference vocabulary pdev i =
     (case of_parse_phandle_with_args (of_node pdev) ''dmas'' ''#dma-cells'' i of
        Inl rc \<Rightarrow> False
      | Inr pa \<Rightarrow>
          (case args pa of
             [a] \<Rightarrow> (sint a = 0 \<or> sint a = 1)
                    \<and> 1 \<le> of_get_child_count (np pa) \<and> of_get_child_count (np pa) \<le> 2
                    \<and> (case channel_tag pdev i of
                          None \<Rightarrow> False
                        | Some t \<Rightarrow> vocabulary t)
           | _ \<Rightarrow> False))"

definition well_formed :: "(string \<Rightarrow> bool) \<Rightarrow> platform_device \<Rightarrow> int \<Rightarrow> bool" where
  "well_formed vocabulary pdev n =
     (0 < n
      \<and> of_property_count_strings (of_node pdev) ''dma-names'' = n
      \<and> of_count_phandle_with_args (of_node pdev) ''dmas'' ''#dma-cells'' = n
      \<and> list_all (well_formed_reference vocabulary pdev) [0..n - 1])"

section \<open>Example device trees\<close>

definition mm2s_node :: device_node where
  "mm2s_node = Device_Node [(''compatible'', Prop_Strings [''xlnx,axi-dma-mm2s-channel''])] []"

definition s2mm_node :: device_node where
  "s2mm_node = Device_Node [(''compatible'', Prop_Strings [''xlnx,axi-dma-s2mm-channel''])] []"

definition vdma_mm2s_node :: device_node where
  "vdma_mm2s_node =
     Device_Node [(''compatible'', Prop_Strings [''xlnx,axi-vdma-mm2s-channel''])] []"

definition vdma_s2mm_node :: device_node where
  "vdma_s2mm_node =
     Device_Node [(''compatible'', Prop_Strings [''xlnx,axi-vdma-s2mm-channel''])] []"

text \<open>A child tagged with the spelling \<^verbatim>\<open>mm2s-dma\<close>.\<close>

definition short_tag_node :: device_node where
  "short_tag_node = Device_Node [(''compatible'', Prop_Strings [''mm2s-dma''])] []"

definition dma_core_one :: device_node where
  "dma_core_one = Device_Node [] [mm2s_node]"

definition dma_core :: device_node where
  "dma_core = Device_Node [] [mm2s_node, s2mm_node]"

definition vdma_core :: device_node where
  "vdma_core = Device_Node [] [vdma_mm2s_node, vdma_s2mm_node]"

definition short_tag_core :: device_node where
  "short_tag_core = Device_Node [] [short_tag_node]"

definition driver_node_of :: "string list \<Rightarrow> phandle_ref list \<Rightarrow> platform_device" where
  "driver_node_of names refs =
     \<lparr>of_node = Some (Device_Node [(''dma-names'', Prop_Strings names),
                                    (''dmas'', Prop_Phandles refs)] [])\<rparr>"

text \<open>Two DMA channels: transmit and receive of one AXI DMA core.\<close>

definition pdev_tx_rx :: platform_device where
  "pdev_tx_rx = driver_node_of [''tx_channel'', ''rx_channel'']
                  [Phandle_Ref (Some dma_core) [0], Phandle_Ref (Some dma_core) [1]]"

text \<open>Two VDMA channels: transmit and receive of one AXI VDMA core.\<close>

definition pdev_vdma :: platform_device where
  "pdev_vdma = driver_node_of [''vdma_tx'', ''vdma_rx'']
                 [Phandle_Ref (Some vdma_core) [0], Phandle_Ref (Some vdma_core) [1]]"

text \<open>The second reference selects sub-channel 2.\<close>

definition pdev_bad_second :: platform_device where
  "pdev_bad_second = driver_node_of [''tx_channel'', ''rx_channel'']
                       [Phandle_Ref (Some dma_core) [0], Phandle_Ref (Some dma_core) [2]]"

text \<open>One reference with two argument cells.\<close>

definition pdev_two_args :: platform_device where
  "pdev_two_args = driver_node_of [''tx_channel''] [Phandle_Ref (Some dma_core_one) [0, 5]]"

text \<open>Two names, one reference.\<close>

definition pdev_mismatch :: platform_device where
  "pdev_mismatch = driver_node_of [''tx_channel'', ''rx_channel'']
                     [Phandle_Ref (Some dma_core) [0]]"

text \<open>The scenario of the specification: names \<^verbatim>\<open>tx_channel\<close> and \<^verbatim>\<open>rx_channel\<close>,
  and two references selecting sub-channel 0 of a node whose child is tagged
  \<^verbatim>\<open>mm2s-dma\<close> and sub-channel 0 of a node whose child is tagged \<^verbatim>\<open>s2mm-dma\<close>.\<close>

definition short_s2mm_node :: device_node where
  "short_s2mm_node = Device_Node [(''compatible'', Prop_Strings [''s2mm-dma''])] []"

definition short_s2mm_core :: device_node where
  "short_s2mm_core = Device_Node [] [short_s2mm_node]"

definition pdev_spec_scenario :: platform_device where
  "pdev_spec_scenario = driver_node_of [''tx_channel'', ''rx_channel'']
                          [Phandle_Ref (Some short_tag_core) [0],
                           Phandle_Ref (Some short_s2mm_core) [0]]"

text \<open>One channel whose child is tagged \<^verbatim>\<open>mm2s-dma\<close>.\<close>

definition pdev_short_tag :: platform_device where
  "pdev_short_tag = driver_node_of [''tx_channel''] [Phandle_Ref (Some short_tag_core) [0]]"

definition chan0 :: axidma_chan where
  "chan0 = \<lparr>dir = AXIDMA_READ, type = AXIDMA_VDMA, channel_id = - 1\<rparr>"

text \<open>Devices as the caller hands them over: \<^verbatim>\<open>num_chans\<close> set, \<^verbatim>\<open>channels\<close>
  allocated, the counters not yet initialised.\<close>

definition dev_of :: "int \<Rightarrow> axidma_device" where
  "dev_of n = \<lparr>num_dma_tx_chans = 7, num_dma_rx_chans = 7, num_vdma_tx_chans = 7,
              num_vdma_rx_chans = 7, num_chans = n, channels = replicate (nat n) chan0\<rparr>"

section \<open>Example callers and mappings\<close>

text \<open>Open flags \<^verbatim>\<open>O_RDWR | O_EXCL\<close> and \<^verbatim>\<open>O_RDWR\<close>.\<close>

definition flags_excl :: "32 word" where
  "flags_excl = 0x82"

definition flags_shared :: "32 word" where
  "flags_shared = 0x02"

text \<open>The address of the module's device structure.\<close>

definition the_dev :: "addr option" where
  "the_dev = Some 0xC1000000"

text \<open>A 32-bit kernel whose \<^verbatim>\<open>remap_pfn_range\<close> accepts every request, and one
  whose \<^verbatim>\<open>remap_pfn_range\<close> fails with \<^verbatim>\<open>-EAGAIN\<close>.\<close>

definition mm_ok :: "32 kernel_mm" where
  "mm_ok = \<lparr>pgprot_noncached = (\<lambda>prot. prot AND NOT 0x3C),
            virt_to_pfn = (\<lambda>a. word_of_nat (a div 4096)),
            remap_pfn_range = (\<lambda>vma addr pfn size prot. 0)\<rparr>"

definition mm_failing :: "32 kernel_mm" where
  "mm_failing = mm_ok\<lparr>remap_pfn_range := (\<lambda>vma addr pfn size prot. - 11)\<rparr>"

text \<open>A request to map 1 GiB at an offset of 4 GiB (\<^verbatim>\<open>vm_pgoff\<close> counts pages of 4096
  bytes).\<close>

definition vma_huge :: "32 vm_area_struct" where
  "vma_huge = \<lparr>vm_start = 0x40000000, vm_end = 0x80000000, vm_pgoff = 0x100000,
               vm_page_prot = 0x3F\<rparr>"

section \<open>Facts about one channel\<close>

lemma parse_compatible_error:
  "axidma_parse_compatible_property t chan dev = (Some e, chan', dev')
     \<Longrightarrow> e = Compatible_Invalid \<and> chan' = chan \<and> dev' = dev"
  by (auto simp: axidma_parse_compatible_property_def split: if_splits)

lemma parse_channel_error:
  "axidma_of_parse_channel n c chan dev = (Some e, chan', dev') \<Longrightarrow> chan' = chan \<and> dev' = dev"
  by (auto simp: axidma_of_parse_channel_def Let_def
           split: if_splits sum.splits dest: parse_compatible_error)

text \<open>\<^verbatim>\<open>axidma_of_parse_channel\<close> in terms of the selected child.\<close>

lemma parse_channel_selected:
  "axidma_of_parse_channel n c chan dev =
     (if of_get_child_count n < 1 then (Some No_Channel_Nodes, chan, dev)
      else if of_get_child_count n > 2 then (Some Too_Many_Channel_Nodes, chan, dev)
      else if of_find_property (selected_child n c) ''compatible'' = None
        then (Some Compatible_Missing, chan, dev)
      else (case of_property_read_string (selected_child n c) ''compatible'' of
              Inl rc \<Rightarrow> (Some Compatible_Unreadable, chan, dev)
            | Inr t \<Rightarrow> axidma_parse_compatible_property t chan dev))"
  by (simp add: axidma_of_parse_channel_def selected_child_def Let_def)

lemma parse_channel_success:
  "axidma_of_parse_channel n c chan dev = (None, chan', dev') \<Longrightarrow>
     \<exists>t. of_property_read_string (selected_child n c) ''compatible'' = Inr t
        \<and> axidma_parse_compatible_property t chan dev = (None, chan', dev')"
  by (auto simp: axidma_of_parse_channel_def selected_child_def Let_def
           split: if_splits sum.splits)

lemma phandle_args_count:
  "of_parse_phandle_with_args node l c i = Inr pa \<Longrightarrow> args_count pa = int (length (args pa))"
  by (auto simp: of_parse_phandle_with_args_def split: option.splits property.splits if_splits)

text \<open>A failing iteration leaves the device as it was.\<close>

lemma parse_dma_node_error:
  "parse_dma_node pdev i dev = (Some e, dev') \<Longrightarrow> dev' = dev"
  by (auto simp: parse_dma_node_def Let_def
           split: if_splits sum.splits prod.splits option.splits
           dest!: parse_channel_error)

text \<open>Whether an iteration fails, and with which error, depends on the device tree only.\<close>

lemma parse_compatible_fst:
  "fst (axidma_parse_compatible_property t chan dev)
     = fst (axidma_parse_compatible_property t chan2 dev2)"
  by (simp add: axidma_parse_compatible_property_def)

lemma parse_channel_fst:
  "fst (axidma_of_parse_channel n c chan dev) = fst (axidma_of_parse_channel n c chan2 dev2)"
  using parse_compatible_fst [of _ chan dev chan2 dev2]
  by (simp add: axidma_of_parse_channel_def Let_def split: sum.splits)

lemma parse_dma_node_fst:
  "fst (parse_dma_node pdev i dev) = fst (parse_dma_node pdev i dev2)"
proof -
  have *: "fst (case x of (Some e, chan, d) \<Rightarrow> (Some e, f chan d)
                      | (None, chan, d) \<Rightarrow> (None, g chan d)) = fst x"
    for x :: "of_error option \<times> axidma_chan \<times> axidma_device" and f g
    by (cases x) (auto split: option.splits)
  show ?thesis
    using parse_channel_fst [of _ _ "channels dev ! nat i" dev "channels dev2 ! nat i" dev2]
    by (simp add: parse_dma_node_def Let_def * split: sum.splits)
qed

text \<open>A successful iteration: the tag of channel \<open>i\<close> is read, the entry \<open>i\<close> is
  written with its identifier, and the device is otherwise as
  \<^verbatim>\<open>axidma_parse_compatible_property\<close> leaves it.\<close>

lemma parse_dma_node_success:
  assumes "parse_dma_node pdev i dev = (None, dev')"
  shows "\<exists>t chan' dev''. channel_tag pdev i = Some t
           \<and> axidma_parse_compatible_property t (channels dev ! nat i) dev = (None, chan', dev'')
           \<and> dev' = dev''\<lparr>channels := (channels dev)[nat i := chan'\<lparr>channel_id := i\<rparr>]\<rparr>"
proof -
  from assms obtain pa where pa:
      "of_parse_phandle_with_args (of_node pdev) ''dmas'' ''#dma-cells'' i = Inr pa"
    by (auto simp: parse_dma_node_def Let_def split: sum.splits)
  with assms have cnt: "\<not> args_count pa < 1"
    by (auto simp: parse_dma_node_def Let_def split: if_splits)
  with phandle_args_count [OF pa] obtain a as where as: "args pa = a # as"
    by (cases "args pa") auto
  from assms pa cnt as obtain chan' dev''
    where pc: "axidma_of_parse_channel (np pa) (sint a) (channels dev ! nat i) dev
                 = (None, chan', dev'')"
      and d: "dev' = dev''\<lparr>channels := (channels dev'')[nat i := chan'\<lparr>channel_id := i\<rparr>]\<rparr>"
    by (auto simp: parse_dma_node_def Let_def split: if_splits prod.splits option.splits)
  from parse_channel_success [OF pc] obtain t
    where t: "of_property_read_string (selected_child (np pa) (sint a)) ''compatible'' = Inr t"
      and p: "axidma_parse_compatible_property t (channels dev ! nat i) dev = (None, chan', dev'')"
    by blast
  have "channel_tag pdev i = Some t"
    by (simp add: channel_tag_def pa as t)
  moreover have "channels dev'' = channels dev"
    using parse_compatible_num_chans [OF p] by simp
  ultimately show ?thesis using p d by auto
qed

lemma parse_compatible_kind:
  "axidma_parse_compatible_property t chan dev = (None, chan', dev') \<Longrightarrow>
     tag_kind t = Some (type chan', dir chan') \<and> channel_id chan' = channel_id chan"
  by (auto simp: axidma_parse_compatible_property_def tag_kind_def split: if_splits)

lemma parse_compatible_invalid:
  "fst (axidma_parse_compatible_property t chan dev) = (if tag_kind t = None then Some Compatible_Invalid else None)"
  by (simp add: axidma_parse_compatible_property_def tag_kind_def)

lemma parse_compatible_counts:
  "axidma_parse_compatible_property t chan dev = (None, chan', dev') \<Longrightarrow>
     num_dma_tx_chans dev' = num_dma_tx_chans dev
        + (if t = ''xlnx,axi-dma-mm2s-channel'' then 1 else 0)
   \<and> num_dma_rx_chans dev' = num_dma_rx_chans dev
        + (if t = ''xlnx,axi-dma-s2mm-channel'' then 1 else 0)
        + (if t = ''xlnx,axi-vdma-s2mm-channel'' then 1 else 0)
   \<and> num_vdma_tx_chans dev' = num_vdma_tx_chans dev
        + (if t = ''xlnx,axi-vdma-mm2s-channel'' then 1 else 0)
   \<and> num_vdma_rx_chans dev' = num_vdma_rx_chans dev"
  by (auto simp: axidma_parse_compatible_property_def split: if_splits)

lemma parse_compatible_total:
  "axidma_parse_compatible_property t chan dev = (None, chan', dev') \<Longrightarrow>
     total_count dev' = total_count dev + 1"
  by (auto simp: axidma_parse_compatible_property_def total_count_def split: if_splits)

lemma tagged_empty: "n \<le> i \<Longrightarrow> tagged pdev t i n = 0"
  by (simp add: tagged_def)

lemma tagged_step:
  "i < n \<Longrightarrow> tagged pdev t i n
      = (if channel_tag pdev i = Some t then 1 else 0) + tagged pdev t (i + 1) n"
  by (simp add: tagged_def upto_rec1 [of i "n - 1"])

lemma parse_dma_node_counts:
  assumes "parse_dma_node pdev i dev = (None, dev')"
  shows "num_dma_tx_chans dev' = num_dma_tx_chans dev
        + (if channel_tag pdev i = Some ''xlnx,axi-dma-mm2s-channel'' then 1 else 0)
   \<and> num_dma_rx_chans dev' = num_dma_rx_chans dev
        + (if channel_tag pdev i = Some ''xlnx,axi-dma-s2mm-channel'' then 1 else 0)
        + (if channel_tag pdev i = Some ''xlnx,axi-vdma-s2mm-channel'' then 1 else 0)
   \<and> num_vdma_tx_chans dev' = num_vdma_tx_chans dev
        + (if channel_tag pdev i = Some ''xlnx,axi-vdma-mm2s-channel'' then 1 else 0)
   \<and> num_vdma_rx_chans dev' = num_vdma_rx_chans dev
   \<and> total_count dev' = total_count dev + 1"
proof -
  from parse_dma_node_success [OF assms] obtain t chan' dev''
    where t: "channel_tag pdev i = Some t"
      and p: "axidma_parse_compatible_property t (channels dev ! nat i) dev = (None, chan', dev'')"
      and d: "dev' = dev''\<lparr>channels := (channels dev)[nat i := chan'\<lparr>channel_id := i\<rparr>]\<rparr>"
    by blast
  show ?thesis
    using parse_compatible_counts [OF p] parse_compatible_total [OF p]
    by (simp add: t d total_count_def)
qed

lemma loop_counts:
  "parse_dma_nodes_from pdev i dev = (None, dev') \<Longrightarrow>
     num_dma_tx_chans dev' = num_dma_tx_chans dev
        + tagged pdev ''xlnx,axi-dma-mm2s-channel'' i (num_chans dev)
   \<and> num_dma_rx_chans dev' = num_dma_rx_chans dev
        + tagged pdev ''xlnx,axi-dma-s2mm-channel'' i (num_chans dev)
        + tagged pdev ''xlnx,axi-vdma-s2mm-channel'' i (num_chans dev)
   \<and> num_vdma_tx_chans dev' = num_vdma_tx_chans dev
        + tagged pdev ''xlnx,axi-vdma-mm2s-channel'' i (num_chans dev)
   \<and> num_vdma_rx_chans dev' = num_vdma_rx_chans dev"
proof (induction pdev i dev rule: parse_dma_nodes_from.induct)
  case (1 pdev i dev)
  show ?case
  proof (cases "i < num_chans dev")
    case False
    with "1.prems" show ?thesis
      by (simp add: parse_dma_nodes_from.simps [of pdev i dev] tagged_empty)
  next
    case True
    with "1.prems" obtain d1 where d1: "parse_dma_node pdev i dev = (None, d1)"
      and rest: "parse_dma_nodes_from pdev (i + 1) d1 = (None, dev')"
      by (auto simp: parse_dma_nodes_from.simps [of pdev i dev] split: prod.splits option.splits)
    have n: "num_chans d1 = num_chans dev"
      using parse_dma_node_num_chans [OF d1] .
    from "1.IH" [OF True d1 [symmetric] refl rest]
    show ?thesis
      using parse_dma_node_counts [OF d1] True
      by (simp add: n tagged_step [OF True])
  qed
qed

lemma loop_total:
  "parse_dma_nodes_from pdev i dev = (None, dev') \<Longrightarrow> i \<le> num_chans dev \<Longrightarrow>
     total_count dev' = total_count dev + (num_chans dev - i) \<and> num_chans dev' = num_chans dev"
proof (induction pdev i dev rule: parse_dma_nodes_from.induct)
  case (1 pdev i dev)
  show ?case
  proof (cases "i < num_chans dev")
    case False
    with "1.prems" show ?thesis
      by (simp add: parse_dma_nodes_from.simps [of pdev i dev])
  next
    case True
    with "1.prems" obtain d1 where d1: "parse_dma_node pdev i dev = (None, d1)"
      and rest: "parse_dma_nodes_from pdev (i + 1) d1 = (None, dev')"
      by (auto simp: parse_dma_nodes_from.simps [of pdev i dev] split: prod.splits option.splits)
    have n: "num_chans d1 = num_chans dev"
      using parse_dma_node_num_chans [OF d1] .
    from "1.IH" [OF True d1 [symmetric] refl rest] True n
    show ?thesis
      using parse_dma_node_counts [OF d1] by simp
  qed
qed

lemma parse_dma_node_channels:
  assumes "parse_dma_node pdev i dev = (None, dev')"
  shows "\<exists>t ty d. channel_tag pdev i = Some t \<and> tag_kind t = Some (ty, d)
           \<and> channels dev' = (channels dev)[nat i := \<lparr>dir = d, type = ty, channel_id = i\<rparr>]"
proof -
  from parse_dma_node_success [OF assms] obtain t chan' dev''
    where t: "channel_tag pdev i = Some t"
      and p: "axidma_parse_compatible_property t (channels dev ! nat i) dev = (None, chan', dev'')"
      and d: "dev' = dev''\<lparr>channels := (channels dev)[nat i := chan'\<lparr>channel_id := i\<rparr>]\<rparr>"
    by blast
  have "chan'\<lparr>channel_id := i\<rparr> = \<lparr>dir = dir chan', type = type chan', channel_id = i\<rparr>"
    by simp
  with parse_compatible_kind [OF p] t d show ?thesis by auto
qed

text \<open>The descriptor that a resolved channel \<open>i\<close> gets.\<close>

lemma loop_channels:
  "parse_dma_nodes_from pdev i dev = (None, dev') \<Longrightarrow> 0 \<le> i \<Longrightarrow>
     length (channels dev') = length (channels dev)
   \<and> (\<forall>j. 0 \<le> j \<and> (j < i \<or> num_chans dev \<le> j)
          \<longrightarrow> channels dev' ! nat j = channels dev ! nat j)
   \<and> (\<forall>j. i \<le> j \<and> j < num_chans dev \<and> nat j < length (channels dev) \<longrightarrow>
          (\<exists>t ty d. channel_tag pdev j = Some t \<and> tag_kind t = Some (ty, d)
              \<and> channels dev' ! nat j = \<lparr>dir = d, type = ty, channel_id = j\<rparr>))"
proof (induction pdev i dev rule: parse_dma_nodes_from.induct)
  case (1 pdev i dev)
  show ?case
  proof (cases "i < num_chans dev")
    case False
    with "1.prems" have "dev' = dev"
      by (simp add: parse_dma_nodes_from.simps [of pdev i dev])
    with False show ?thesis by auto
  next
    case True
    with "1.prems" obtain d1 where d1: "parse_dma_node pdev i dev = (None, d1)"
      and rest: "parse_dma_nodes_from pdev (i + 1) d1 = (None, dev')"
      by (auto simp: parse_dma_nodes_from.simps [of pdev i dev] split: prod.splits option.splits)
    have n: "num_chans d1 = num_chans dev"
      using parse_dma_node_num_chans [OF d1] .
    from parse_dma_node_channels [OF d1] obtain t ty d
      where t: "channel_tag pdev i = Some t" and k: "tag_kind t = Some (ty, d)"
        and c: "channels d1 = (channels dev)[nat i := \<lparr>dir = d, type = ty, channel_id = i\<rparr>]"
      by blast
    from "1.prems" have i0: "0 \<le> i + 1" by simp
    note IH = "1.IH" [OF True d1 [symmetric] refl rest i0]
    have len: "length (channels dev') = length (channels dev)"
      using IH c by simp
    have keep: "channels dev' ! nat j = channels dev ! nat j"
      if "0 \<le> j" and "j < i \<or> num_chans dev \<le> j" for j
    proof -
      from that True have "nat j \<noteq> nat i" using "1.prems"(2) by auto
      moreover from that True have "j < i + 1 \<or> num_chans d1 \<le> j" by (auto simp: n)
      with IH that have "channels dev' ! nat j = channels d1 ! nat j" by blast
      ultimately show ?thesis by (simp add: c)
    qed
    have new: "\<exists>t ty d. channel_tag pdev j = Some t \<and> tag_kind t = Some (ty, d)
              \<and> channels dev' ! nat j = \<lparr>dir = d, type = ty, channel_id = j\<rparr>"
      if "i \<le> j" and "j < num_chans dev" and "nat j < length (channels dev)" for j
    proof (cases "j = i")
      case True
      from IH "1.prems"(2) have "channels dev' ! nat i = channels d1 ! nat i"
        by (metis add.commute less_add_one) 
      with that True t k show ?thesis by (simp add: c)
    next
      case False
      with that have "i + 1 \<le> j" "j < num_chans d1" "nat j < length (channels d1)"
        by (auto simp: n c)
      with IH show ?thesis by blast
    qed
    from len keep new show ?thesis by blast
  qed
qed

lemma parse_dma_node_truncate:
  "parse_dma_node pdev i (dev\<lparr>num_chans := k\<rparr>)
     = (fst (parse_dma_node pdev i dev), (snd (parse_dma_node pdev i dev))\<lparr>num_chans := k\<rparr>)"
proof -
  have pc: "axidma_parse_compatible_property t chan (dev\<lparr>num_chans := k\<rparr>)
      = (case axidma_parse_compatible_property t chan dev of
           (r, chan', dev') \<Rightarrow> (r, chan', dev'\<lparr>num_chans := k\<rparr>))" for t chan
    by (simp add: axidma_parse_compatible_property_def)
  have ch: "axidma_of_parse_channel n c chan (dev\<lparr>num_chans := k\<rparr>)
      = (case axidma_of_parse_channel n c chan dev of
           (r, chan', dev') \<Rightarrow> (r, chan', dev'\<lparr>num_chans := k\<rparr>))" for n c chan
    by (simp add: axidma_of_parse_channel_def Let_def pc split: sum.splits)
  show ?thesis
    by (simp add: parse_dma_node_def Let_def ch split: sum.splits prod.splits option.splits)
qed

text \<open>A failing loop stops at the first failing channel \<open>k\<close>, and leaves the device
  that the loop over the channels before \<open>k\<close> produces.\<close>

lemma loop_failure:
  "parse_dma_nodes_from pdev i dev = (Some e, dev') \<Longrightarrow>
     \<exists>k. i \<le> k \<and> k < num_chans dev
        \<and> fst (parse_dma_node pdev k dev') = Some e
        \<and> (\<forall>j. i \<le> j \<and> j < k \<longrightarrow> fst (parse_dma_node pdev j dev') = None)
        \<and> parse_dma_nodes_from pdev i (dev\<lparr>num_chans := k\<rparr>) = (None, dev'\<lparr>num_chans := k\<rparr>)"
proof (induction pdev i dev rule: parse_dma_nodes_from.induct)
  case (1 pdev i dev)
  show ?case
  proof (cases "i < num_chans dev")
    case False
    with "1.prems" show ?thesis
      by (simp add: parse_dma_nodes_from.simps [of pdev i dev])
  next
    case True
    show ?thesis
    proof (cases "fst (parse_dma_node pdev i dev)")
      case (Some e')
      then obtain d1 where d1: "parse_dma_node pdev i dev = (Some e', d1)"
        by (cases "parse_dma_node pdev i dev") auto
      with "1.prems" True have e: "e' = e" and d: "dev' = d1"
        by (auto simp: parse_dma_nodes_from.simps [of pdev i dev])
      from parse_dma_node_error [OF d1] d have same: "dev' = dev" by simp
      have "parse_dma_nodes_from pdev i (dev\<lparr>num_chans := i\<rparr>) = (None, dev\<lparr>num_chans := i\<rparr>)"
        by (simp add: parse_dma_nodes_from.simps [of pdev i "dev\<lparr>num_chans := i\<rparr>"])
      with True Some e same show ?thesis
        by (intro exI [of _ i]) auto
    next
      case None
      then obtain d1 where d1: "parse_dma_node pdev i dev = (None, d1)"
        by (cases "parse_dma_node pdev i dev") auto
      with "1.prems" True have rest: "parse_dma_nodes_from pdev (i + 1) d1 = (Some e, dev')"
        by (auto simp: parse_dma_nodes_from.simps [of pdev i dev])
      have n: "num_chans d1 = num_chans dev"
        using parse_dma_node_num_chans [OF d1] .
      from "1.IH" [OF True d1 [symmetric] refl rest] obtain k
        where k: "i + 1 \<le> k" "k < num_chans d1"
          and ek: "fst (parse_dma_node pdev k dev') = Some e"
          and before: "\<forall>j. i + 1 \<le> j \<and> j < k \<longrightarrow> fst (parse_dma_node pdev j dev') = None"
          and tr: "parse_dma_nodes_from pdev (i + 1) (d1\<lparr>num_chans := k\<rparr>)
                     = (None, dev'\<lparr>num_chans := k\<rparr>)"
        by blast
      have "fst (parse_dma_node pdev i dev') = None"
        using None parse_dma_node_fst [of pdev i dev' dev] by simp
      with before have before': "\<forall>j. i \<le> j \<and> j < k \<longrightarrow> fst (parse_dma_node pdev j dev') = None"
        by (metis add.commute order_le_less zless_imp_add1_zle)
      have "parse_dma_node pdev i (dev\<lparr>num_chans := k\<rparr>) = (None, d1\<lparr>num_chans := k\<rparr>)"
        by (simp add: parse_dma_node_truncate d1)
      with k tr have "parse_dma_nodes_from pdev i (dev\<lparr>num_chans := k\<rparr>)
                        = (None, dev'\<lparr>num_chans := k\<rparr>)"
        by (simp add: parse_dma_nodes_from.simps [of pdev i "dev\<lparr>num_chans := k\<rparr>"])
      with k n ek before' show ?thesis
        by (intro exI [of _ k]) auto
    qed
  qed
qed

text \<open>The loop succeeds exactly when every iteration in range does.\<close>

lemma loop_succeeds:
  "(\<forall>j. i \<le> j \<and> j < num_chans dev \<longrightarrow> fst (parse_dma_node pdev j dev) = None)
     \<Longrightarrow> fst (parse_dma_nodes_from pdev i dev) = None"
proof (induction pdev i dev rule: parse_dma_nodes_from.induct)
  case (1 pdev i dev)
  show ?case
  proof (cases "i < num_chans dev")
    case False
    then show ?thesis
      by (simp add: parse_dma_nodes_from.simps [of pdev i dev])
  next
    case True
    with "1.prems" have "fst (parse_dma_node pdev i dev) = None" by simp
    then obtain d1 where d1: "parse_dma_node pdev i dev = (None, d1)"
      by (cases "parse_dma_node pdev i dev") auto
    have n: "num_chans d1 = num_chans dev"
      using parse_dma_node_num_chans [OF d1] .
    have "\<forall>j. i + 1 \<le> j \<and> j < num_chans d1 \<longrightarrow> fst (parse_dma_node pdev j d1) = None"
      using "1.prems" parse_dma_node_fst [of pdev _ d1 dev] by (simp add: n)
    from "1.IH" [OF True d1 [symmetric] refl this] True d1
    show ?thesis
      by (simp add: parse_dma_nodes_from.simps [of pdev i dev])
  qed
qed

lemma loop_fails:
  "i \<le> k \<Longrightarrow> k < num_chans dev \<Longrightarrow> fst (parse_dma_node pdev k dev) = Some e
     \<Longrightarrow> fst (parse_dma_nodes_from pdev i dev) \<noteq> None"
proof (induction pdev i dev rule: parse_dma_nodes_from.induct)
  case (1 pdev i dev)
  from "1.prems" have True: "i < num_chans dev" by simp
  show ?case
  proof (cases "fst (parse_dma_node pdev i dev)")
    case (Some e')
    then obtain d1 where "parse_dma_node pdev i dev = (Some e', d1)"
      by (cases "parse_dma_node pdev i dev") auto
    with True show ?thesis
      by (simp add: parse_dma_nodes_from.simps [of pdev i dev])
  next
    case None
    then obtain d1 where d1: "parse_dma_node pdev i dev = (None, d1)"
      by (cases "parse_dma_node pdev i dev") auto
    have n: "num_chans d1 = num_chans dev"
      using parse_dma_node_num_chans [OF d1] .
    from None "1.prems" have "i \<noteq> k" by auto
    with "1.prems" have k: "i + 1 \<le> k" "k < num_chans d1" by (simp_all add: n)
    have "fst (parse_dma_node pdev k d1) = Some e"
      using "1.prems"(3) parse_dma_node_fst [of pdev k d1 dev] by simp
    from "1.IH" [OF True d1 [symmetric] refl k this] True d1
    show ?thesis
      by (simp add: parse_dma_nodes_from.simps [of pdev i dev])
  qed
qed

text \<open>The vocabulary of the code is the domain of \<open>tag_kind\<close>.\<close>

lemma code_vocabulary_kind: "code_vocabulary t \<longleftrightarrow> tag_kind t \<noteq> None"
  by (simp add: code_vocabulary_def tag_kind_def)

text \<open>A reference that is well-formed for the vocabulary of the code passes every check
  of its iteration.\<close>

lemma well_formed_reference_ok:
  assumes "well_formed_reference code_vocabulary pdev i"
  shows "fst (parse_dma_node pdev i dev) = None"
proof -
  from assms obtain pa where pa:
      "of_parse_phandle_with_args (of_node pdev) ''dmas'' ''#dma-cells'' i = Inr pa"
    by (auto simp: well_formed_reference_def split: sum.splits)
  with assms obtain a where a: "args pa = [a]"
    by (auto simp: well_formed_reference_def split: list.splits)
  from assms pa a have sel: "sint a = 0 \<or> sint a = 1"
    and cnt: "1 \<le> of_get_child_count (np pa)" "of_get_child_count (np pa) \<le> 2"
    by (auto simp: well_formed_reference_def)
  from assms pa a obtain t where t: "channel_tag pdev i = Some t" and k: "tag_kind t \<noteq> None"
    by (auto simp: well_formed_reference_def code_vocabulary_kind split: option.splits)
  from t pa a have rd:
      "of_property_read_string (selected_child (np pa) (sint a)) ''compatible'' = Inr t"
    by (auto simp: channel_tag_def split: sum.splits)
  then have fp: "of_find_property (selected_child (np pa) (sint a)) ''compatible'' \<noteq> None"
    by (auto simp: of_property_read_string_def split: option.splits)
  have "fst (axidma_of_parse_channel (np pa) (sint a) chan dev) = None" for chan
    using cnt fp rd k parse_compatible_invalid [of t chan dev]
    by (simp add: parse_channel_selected)
  then have "\<exists>chan' dev''. axidma_of_parse_channel (np pa) (sint a) (channels dev ! nat i) dev
                 = (None, chan', dev'')"
    by (metis fst_conv surj_pair)
  then obtain chan' dev'' where
    "axidma_of_parse_channel (np pa) (sint a) (channels dev ! nat i) dev = (None, chan', dev'')"
    by blast
  with pa a sel phandle_args_count [OF pa] show ?thesis
    by (auto simp: parse_dma_node_def Let_def)
qed

lemma well_formed_positive: "well_formed vocabulary pdev n \<Longrightarrow> 1 \<le> n"
  by (simp add: well_formed_def)

text \<open>One failing channel in range makes the whole of \<^verbatim>\<open>axidma_of_parse_dma_nodes\<close> fail.\<close>

lemma resolve_fails:
  assumes "0 \<le> k" "k < num_chans dev" "fst (parse_dma_node pdev k dev) = Some e"
  shows "fst (axidma_of_parse_dma_nodes pdev dev) \<noteq> None"
proof -
  let ?dz = "dev\<lparr>num_dma_tx_chans := 0, num_dma_rx_chans := 0,
                  num_vdma_tx_chans := 0, num_vdma_rx_chans := 0\<rparr>"
  have "fst (parse_dma_node pdev k ?dz) = Some e"
    using assms(3) parse_dma_node_fst [of pdev k ?dz dev] by simp
  moreover have "k < num_chans ?dz" using assms(2) by simp
  ultimately have "fst (parse_dma_nodes_from pdev 0 ?dz) \<noteq> None"
    using assms(1) loop_fails [of 0 k ?dz pdev e] by blast
  then show ?thesis by (simp add: axidma_of_parse_dma_nodes_def)
qed

lemma parse_dma_node_fst_channel:
  assumes "of_parse_phandle_with_args (of_node pdev) ''dmas'' ''#dma-cells'' i = Inr pa"
    and "1 \<le> args_count pa" and "sint (args pa ! 0) = 0 \<or> sint (args pa ! 0) = 1"
  shows "fst (parse_dma_node pdev i dev)
           = fst (axidma_of_parse_channel (np pa) (sint (args pa ! 0)) (channels dev ! nat i) dev)"
proof -
  have *: "fst (case x of (Some e, chan, d) \<Rightarrow> (Some e, f chan d)
                      | (None, chan, d) \<Rightarrow> (None, g chan d)) = fst x"
    for x :: "of_error option \<times> axidma_chan \<times> axidma_device" and f g
    by (cases x) (auto split: option.splits)
  from assms show ?thesis
    by (auto simp: parse_dma_node_def Let_def *)
qed

lemma parse_channel_errors:
  assumes "of_get_child_count n = 1 \<or> of_get_child_count n = 2"
  shows "fst (axidma_of_parse_channel n c chan dev)
           \<in> {None, Some Compatible_Missing, Some Compatible_Unreadable, Some Compatible_Invalid}"
  using assms
  by (auto simp: parse_channel_selected parse_compatible_invalid split: sum.splits)

text \<open>The counters after a successful resolution, by tag.\<close>

lemma resolve_counts:
  assumes "axidma_of_parse_dma_nodes pdev dev = (None, dev')"
  shows "num_dma_tx_chans dev' = tagged pdev ''xlnx,axi-dma-mm2s-channel'' 0 (num_chans dev)
   \<and> num_dma_rx_chans dev' = tagged pdev ''xlnx,axi-dma-s2mm-channel'' 0 (num_chans dev)
        + tagged pdev ''xlnx,axi-vdma-s2mm-channel'' 0 (num_chans dev)
   \<and> num_vdma_tx_chans dev' = tagged pdev ''xlnx,axi-vdma-mm2s-channel'' 0 (num_chans dev)
   \<and> num_vdma_rx_chans dev' = 0"
  using loop_counts [OF assms [unfolded axidma_of_parse_dma_nodes_def]] by simp

text \<open>Resolution reads the \<^verbatim>\<open>dmas\<close> property of the driver node and no other.\<close>

lemma parse_dma_node_dmas_only:
  assumes "of_find_property (of_node pdev') ''dmas'' = of_find_property (of_node pdev) ''dmas''"
  shows "parse_dma_node pdev' i dev = parse_dma_node pdev i dev"
proof -
  from assms have "of_parse_phandle_with_args (of_node pdev') ''dmas'' ''#dma-cells'' i
                 = of_parse_phandle_with_args (of_node pdev) ''dmas'' ''#dma-cells'' i"
    by (simp add: of_parse_phandle_with_args_def)
  then show ?thesis by (simp add: parse_dma_node_def)
qed

lemma loop_dmas_only:
  "of_find_property (of_node pdev') ''dmas'' = of_find_property (of_node pdev) ''dmas''
     \<Longrightarrow> parse_dma_nodes_from pdev' i dev = parse_dma_nodes_from pdev i dev"
proof (induction pdev i dev rule: parse_dma_nodes_from.induct)
  case (1 pdev i dev)
  note same = parse_dma_node_dmas_only [OF "1.prems"]
  show ?case
  proof (cases "i < num_chans dev")
    case False
    then show ?thesis
      by (simp add: parse_dma_nodes_from.simps [of _ i dev])
  next
    case True
    obtain r d1 where p: "parse_dma_node pdev i dev = (r, d1)"
      by (cases "parse_dma_node pdev i dev") auto
    show ?thesis
    proof (cases r)
      case None
      from "1.IH" [OF True p [symmetric] None "1.prems"] True p None same
      show ?thesis
        by (simp add: parse_dma_nodes_from.simps [of _ i dev])
    next
      case (Some e)
      with True p same show ?thesis
        by (simp add: parse_dma_nodes_from.simps [of _ i dev])
    qed
  qed
qed

section \<open>Counting the channels by kind\<close>

text \<open>
  Claim C3, as amended. For every channel that resolves, tagged
  \<^verbatim>\<open>xlnx,axi-dma-mm2s-channel\<close>, \<^verbatim>\<open>xlnx,axi-dma-s2mm-channel\<close> or
  \<^verbatim>\<open>xlnx,axi-vdma-mm2s-channel\<close>, the counter of the kind its tag names is
  incremented: \<^verbatim>\<open>num_dma_tx_chans\<close>, \<^verbatim>\<open>num_dma_rx_chans\<close> and \<^verbatim>\<open>num_vdma_tx_chans\<close>
  respectively. So after a full resolve \<^verbatim>\<open>num_dma_tx_chans\<close> and
  \<^verbatim>\<open>num_vdma_tx_chans\<close> each equal the number of declared channels carrying their tag,
  and so does \<^verbatim>\<open>num_dma_rx_chans\<close> when no declared channel carries the VDMA receive
  tag.
\<close>

theorem counters_by_tag:
  assumes "axidma_of_parse_dma_nodes pdev dev = (None, dev')"
  shows "num_dma_tx_chans dev' = tagged pdev ''xlnx,axi-dma-mm2s-channel'' 0 (num_chans dev)
   \<and> num_vdma_tx_chans dev' = tagged pdev ''xlnx,axi-vdma-mm2s-channel'' 0 (num_chans dev)
   \<and> (tagged pdev ''xlnx,axi-vdma-s2mm-channel'' 0 (num_chans dev) = 0 \<longrightarrow>
        num_dma_rx_chans dev' = tagged pdev ''xlnx,axi-dma-s2mm-channel'' 0 (num_chans dev))
   \<and> (\<forall>i d d'. parse_dma_node pdev i d = (None, d') \<longrightarrow>
          (channel_tag pdev i = Some ''xlnx,axi-dma-mm2s-channel'' \<longrightarrow>
             num_dma_tx_chans d' = num_dma_tx_chans d + 1)
        \<and> (channel_tag pdev i = Some ''xlnx,axi-dma-s2mm-channel'' \<longrightarrow>
             num_dma_rx_chans d' = num_dma_rx_chans d + 1)
        \<and> (channel_tag pdev i = Some ''xlnx,axi-vdma-mm2s-channel'' \<longrightarrow>
             num_vdma_tx_chans d' = num_vdma_tx_chans d + 1))"
proof -
  have step: "(channel_tag pdev i = Some ''xlnx,axi-dma-mm2s-channel'' \<longrightarrow>
             num_dma_tx_chans d' = num_dma_tx_chans d + 1)
        \<and> (channel_tag pdev i = Some ''xlnx,axi-dma-s2mm-channel'' \<longrightarrow>
             num_dma_rx_chans d' = num_dma_rx_chans d + 1)
        \<and> (channel_tag pdev i = Some ''xlnx,axi-vdma-mm2s-channel'' \<longrightarrow>
             num_vdma_tx_chans d' = num_vdma_tx_chans d + 1)"
    if "parse_dma_node pdev i d = (None, d')" for i d d'
    using parse_dma_node_counts [OF that] by simp
  from resolve_counts [OF assms] step show ?thesis
    by simp
qed

theorem counters_by_tag_witness:
  "axidma_of_parse_dma_nodes pdev_tx_rx (dev_of 2) =
     (None, \<lparr>num_dma_tx_chans = 1, num_dma_rx_chans = 1, num_vdma_tx_chans = 0,
             num_vdma_rx_chans = 0, num_chans = 2,
             channels = [\<lparr>dir = AXIDMA_WRITE, type = AXIDMA_DMA, channel_id = 0\<rparr>,
                         \<lparr>dir = AXIDMA_READ, type = AXIDMA_DMA, channel_id = 1\<rparr>]\<rparr>)
   \<and> tagged pdev_tx_rx ''xlnx,axi-dma-mm2s-channel'' 0 2 = 1
   \<and> tagged pdev_tx_rx ''xlnx,axi-dma-s2mm-channel'' 0 2 = 1
   \<and> tagged pdev_tx_rx ''xlnx,axi-vdma-mm2s-channel'' 0 2 = 0"
proof -
  have run: "axidma_of_parse_dma_nodes pdev_tx_rx (dev_of 2) =
     (None, \<lparr>num_dma_tx_chans = 1, num_dma_rx_chans = 1, num_vdma_tx_chans = 0,
             num_vdma_rx_chans = 0, num_chans = 2,
             channels = [\<lparr>dir = AXIDMA_WRITE, type = AXIDMA_DMA, channel_id = 0\<rparr>,
                         \<lparr>dir = AXIDMA_READ, type = AXIDMA_DMA, channel_id = 1\<rparr>]\<rparr>)"
    by code_simp
  have n: "num_chans (dev_of 2) = 2" by (simp add: dev_of_def)
  have z: "tagged pdev_tx_rx ''xlnx,axi-vdma-s2mm-channel'' 0 2 = 0" by code_simp
  from counters_by_tag [OF run] n z run show ?thesis by simp
qed

text \<open>
  As stated, with the tags spelled \<^verbatim>\<open>mm2s-dma\<close> and so on, the claim fails: after the
  full resolve of a transmit and a receive DMA channel both counters are 1, while no
  declared channel carries the tag \<^verbatim>\<open>mm2s-dma\<close> or \<^verbatim>\<open>s2mm-dma\<close>.
\<close>

theorem short_tag_not_counted:
  "axidma_of_parse_dma_nodes pdev_tx_rx (dev_of 2) =
     (None, \<lparr>num_dma_tx_chans = 1, num_dma_rx_chans = 1, num_vdma_tx_chans = 0,
             num_vdma_rx_chans = 0, num_chans = 2,
             channels = [\<lparr>dir = AXIDMA_WRITE, type = AXIDMA_DMA, channel_id = 0\<rparr>,
                         \<lparr>dir = AXIDMA_READ, type = AXIDMA_DMA, channel_id = 1\<rparr>]\<rparr>)
   \<and> tagged pdev_tx_rx ''mm2s-dma'' 0 2 = 0
   \<and> tagged pdev_tx_rx ''s2mm-dma'' 0 2 = 0"
  by code_simp

text \<open>
  The VDMA receive tag: at a VDMA core with a transmit and a receive channel both
  channels resolve, the second carries the tag \<^verbatim>\<open>xlnx,axi-vdma-s2mm-channel\<close> and gets
  (VDMA, read), \<^verbatim>\<open>num_dma_rx_chans\<close> is 1 and \<^verbatim>\<open>num_vdma_rx_chans\<close> stays 0, as it does
  after every successful resolve (\<open>resolve_counts\<close>).
\<close>

lemma vdma_receive_counted_as_dma_receive:
  "channel_tag pdev_vdma 1 = Some ''xlnx,axi-vdma-s2mm-channel''
   \<and> axidma_of_parse_dma_nodes pdev_vdma (dev_of 2)
     = (None, \<lparr>num_dma_tx_chans = 0, num_dma_rx_chans = 1, num_vdma_tx_chans = 1,
               num_vdma_rx_chans = 0, num_chans = 2,
               channels = [\<lparr>dir = AXIDMA_WRITE, type = AXIDMA_VDMA, channel_id = 0\<rparr>,
                           \<lparr>dir = AXIDMA_READ, type = AXIDMA_VDMA, channel_id = 1\<rparr>]\<rparr>)"
  by code_simp

section \<open>What a failed resolution leaves behind\<close>

text \<open>
  Claim C4, as amended. The first error aborts resolution: when
  \<^verbatim>\<open>axidma_of_parse_dma_nodes\<close> fails, there is a first failing channel \<open>k\<close> within
  \<^verbatim>\<open>num_chans\<close>, every channel before \<open>k\<close> passes, the error returned is that of
  channel \<open>k\<close>, and the entries from \<open>k\<close> on are untouched. The partial topology is not
  discarded: the device is left exactly as a successful resolution of the first \<open>k\<close>
  channels alone leaves it, with their descriptors written and the counters summing to
  \<open>k\<close>; clearing or hiding it is left to the caller.
\<close>

theorem resolve_stops_at_first_error:
  assumes "axidma_of_parse_dma_nodes pdev dev = (Some e, dev')"
  shows "\<exists>k. 0 \<le> k \<and> k < num_chans dev
           \<and> (\<forall>d. fst (parse_dma_node pdev k d) = Some e)
           \<and> (\<forall>j d. 0 \<le> j \<and> j < k \<longrightarrow> fst (parse_dma_node pdev j d) = None)
           \<and> axidma_of_parse_dma_nodes pdev (dev\<lparr>num_chans := k\<rparr>)
                = (None, dev'\<lparr>num_chans := k\<rparr>)
           \<and> total_count dev' = k
           \<and> (\<forall>j. k \<le> j \<longrightarrow> channels dev' ! nat j = channels dev ! nat j)"
proof -
  define dz where "dz = dev\<lparr>num_dma_tx_chans := 0, num_dma_rx_chans := 0,
                           num_vdma_tx_chans := 0, num_vdma_rx_chans := 0\<rparr>"
  have dz: "num_chans dz = num_chans dev" "channels dz = channels dev" "total_count dz = 0"
    by (simp_all add: dz_def total_count_def)
  from assms have run: "parse_dma_nodes_from pdev 0 dz = (Some e, dev')"
    by (simp add: axidma_of_parse_dma_nodes_def dz_def)
  from loop_failure [OF run] obtain k
    where k: "0 \<le> k" "k < num_chans dz"
      and ek: "fst (parse_dma_node pdev k dev') = Some e"
      and before: "\<forall>j. 0 \<le> j \<and> j < k \<longrightarrow> fst (parse_dma_node pdev j dev') = None"
      and tr: "parse_dma_nodes_from pdev 0 (dz\<lparr>num_chans := k\<rparr>) = (None, dev'\<lparr>num_chans := k\<rparr>)"
    by blast
  have ek': "\<forall>d. fst (parse_dma_node pdev k d) = Some e"
    using ek parse_dma_node_fst [of pdev k _ dev'] by metis
  have before': "\<forall>j d. 0 \<le> j \<and> j < k \<longrightarrow> fst (parse_dma_node pdev j d) = None"
    using before parse_dma_node_fst [of pdev _ _ dev'] by metis
  have tr': "axidma_of_parse_dma_nodes pdev (dev\<lparr>num_chans := k\<rparr>) = (None, dev'\<lparr>num_chans := k\<rparr>)"
  proof -
    have "dev\<lparr>num_chans := k, num_dma_tx_chans := 0, num_dma_rx_chans := 0,
              num_vdma_tx_chans := 0, num_vdma_rx_chans := 0\<rparr> = dz\<lparr>num_chans := k\<rparr>"
      by (cases dev) (simp add: dz_def)
    with tr show ?thesis by (simp add: axidma_of_parse_dma_nodes_def)
  qed
  have tc: "total_count (d\<lparr>num_chans := k\<rparr>) = total_count d" for d
    by (simp add: total_count_def)
  from loop_total [OF tr] k have tot: "total_count dev' = k"
    by (simp add: tc dz)
  from loop_channels [OF tr] have
    "\<forall>j. 0 \<le> j \<and> k \<le> j \<longrightarrow> channels dev' ! nat j = channels dev ! nat j"
    by (simp add: dz)
  with k have keep: "\<forall>j. k \<le> j \<longrightarrow> channels dev' ! nat j = channels dev ! nat j"
    by auto
  from k ek' before' tr' tot keep show ?thesis
    by (intro exI [of _ k]) (simp add: dz)
qed

theorem resolve_stops_at_first_error_witness:
  "axidma_of_parse_dma_nodes pdev_bad_second (dev_of 2)
     = (Some Channel_Arg_Invalid,
        \<lparr>num_dma_tx_chans = 1, num_dma_rx_chans = 0, num_vdma_tx_chans = 0,
          num_vdma_rx_chans = 0, num_chans = 2,
          channels = [\<lparr>dir = AXIDMA_WRITE, type = AXIDMA_DMA, channel_id = 0\<rparr>, chan0]\<rparr>)
   \<and> (\<exists>k. 0 \<le> k \<and> k < 2 \<and> (\<forall>d. fst (parse_dma_node pdev_bad_second k d) = Some Channel_Arg_Invalid)
          \<and> total_count \<lparr>num_dma_tx_chans = 1, num_dma_rx_chans = 0, num_vdma_tx_chans = 0,
          num_vdma_rx_chans = 0, num_chans = 2,
          channels = [\<lparr>dir = AXIDMA_WRITE, type = AXIDMA_DMA, channel_id = 0\<rparr>, chan0]\<rparr> = k)"
proof -
  have run: "axidma_of_parse_dma_nodes pdev_bad_second (dev_of 2)
     = (Some Channel_Arg_Invalid,
        \<lparr>num_dma_tx_chans = 1, num_dma_rx_chans = 0, num_vdma_tx_chans = 0,
          num_vdma_rx_chans = 0, num_chans = 2,
          channels = [\<lparr>dir = AXIDMA_WRITE, type = AXIDMA_DMA, channel_id = 0\<rparr>, chan0]\<rparr>)"
    by code_simp
  have n: "num_chans (dev_of 2) = 2" by (simp add: dev_of_def)
  from resolve_stops_at_first_error [OF run] n run show ?thesis
    by auto
qed

text \<open>
  As stated, the claim fails where it says that the partial topology is discarded: with
  a valid first and an invalid second reference, the failed call returns with the first
  descriptor written and the transmit counter at 1 in the device structure.
\<close>

theorem partial_topology_left_behind:
  "axidma_of_parse_dma_nodes pdev_bad_second (dev_of 2)
     = (Some Channel_Arg_Invalid,
        \<lparr>num_dma_tx_chans = 1, num_dma_rx_chans = 0, num_vdma_tx_chans = 0,
          num_vdma_rx_chans = 0, num_chans = 2,
          channels = [\<lparr>dir = AXIDMA_WRITE, type = AXIDMA_DMA, channel_id = 0\<rparr>, chan0]\<rparr>)"
  by code_simp

section \<open>Resolving a well-formed description\<close>

text \<open>
  Claim C5, as amended. For every description declaring \<open>n\<close> channels that is
  well-formed with the type tags of the code's vocabulary
  (\<^verbatim>\<open>xlnx,axi-dma-mm2s-channel\<close>, \<^verbatim>\<open>xlnx,axi-dma-s2mm-channel\<close>,
  \<^verbatim>\<open>xlnx,axi-vdma-mm2s-channel\<close>, \<^verbatim>\<open>xlnx,axi-vdma-s2mm-channel\<close>), then \<open>n \<ge> 1\<close>,
  and handed over with \<^verbatim>\<open>num_chans = n\<close> and \<open>n\<close> allocated entries,
  \<^verbatim>\<open>axidma_of_parse_dma_nodes\<close> succeeds and leaves exactly \<open>n\<close> channel
  descriptors; the \<open>i\<close>-th descriptor has \<^verbatim>\<open>channel_id = i\<close> and the engine type and
  direction of the \<open>i\<close>-th declared reference's tag (declaration order, not sorted by
  type); and the four counters sum to \<open>n\<close>.
\<close>

theorem resolve_well_formed:
  assumes wf: "well_formed code_vocabulary pdev n" and n: "num_chans dev = n"
    and len: "length (channels dev) = nat n"
  shows "1 \<le> n \<and>
    (\<exists>dev'. axidma_of_parse_dma_nodes pdev dev = (None, dev')
       \<and> length (channels dev') = nat n
       \<and> (\<forall>i. 0 \<le> i \<and> i < n \<longrightarrow>
             channel_id (channels dev' ! nat i) = i
           \<and> (\<exists>t. channel_tag pdev i = Some t
                 \<and> tag_kind t = Some (type (channels dev' ! nat i), dir (channels dev' ! nat i))))
       \<and> total_count dev' = n)"
proof -
  define dz where "dz = dev\<lparr>num_dma_tx_chans := 0, num_dma_rx_chans := 0,
                           num_vdma_tx_chans := 0, num_vdma_rx_chans := 0\<rparr>"
  have dz: "num_chans dz = n" "channels dz = channels dev" "total_count dz = 0"
    by (simp_all add: dz_def n total_count_def)
  have run: "axidma_of_parse_dma_nodes pdev dev = parse_dma_nodes_from pdev 0 dz"
    by (simp add: axidma_of_parse_dma_nodes_def dz_def)
  have "\<forall>j. 0 \<le> j \<and> j < num_chans dz \<longrightarrow> fst (parse_dma_node pdev j dz) = None"
  proof (intro allI impI)
    fix j assume "0 \<le> j \<and> j < num_chans dz"
    then have "j \<in> set [0..n - 1]" by (simp add: dz)
    with wf have "well_formed_reference code_vocabulary pdev j"
      by (simp add: well_formed_def list_all_iff)
    then show "fst (parse_dma_node pdev j dz) = None"
      by (rule well_formed_reference_ok)
  qed
  then have "fst (parse_dma_nodes_from pdev 0 dz) = None"
    by (rule loop_succeeds)
  then obtain dev' where ok: "parse_dma_nodes_from pdev 0 dz = (None, dev')"
    by (cases "parse_dma_nodes_from pdev 0 dz") auto
  from well_formed_positive [OF wf] have pos: "1 \<le> n" .
  from loop_channels [OF ok] have
    l: "length (channels dev') = length (channels dz)" and
    c: "\<forall>j. 0 \<le> j \<and> j < num_chans dz \<and> nat j < length (channels dz) \<longrightarrow>
          (\<exists>t ty d. channel_tag pdev j = Some t \<and> tag_kind t = Some (ty, d)
              \<and> channels dev' ! nat j = \<lparr>dir = d, type = ty, channel_id = j\<rparr>)"
    by simp_all
  have each: "channel_id (channels dev' ! nat i) = i
           \<and> (\<exists>t. channel_tag pdev i = Some t
                 \<and> tag_kind t = Some (type (channels dev' ! nat i), dir (channels dev' ! nat i)))"
    if "0 \<le> i \<and> i < n" for i
  proof -
    from that have "0 \<le> i \<and> i < num_chans dz \<and> nat i < length (channels dz)"
      by (simp add: dz len)
    with c obtain t ty d where "channel_tag pdev i = Some t" "tag_kind t = Some (ty, d)"
      "channels dev' ! nat i = \<lparr>dir = d, type = ty, channel_id = i\<rparr>"
      by blast
    then show ?thesis by simp
  qed
  from loop_total [OF ok] pos have "total_count dev' = n"
    by (simp add: dz)
  with pos run ok l each show ?thesis
    by (simp add: dz len)
qed

theorem resolve_well_formed_witness:
  "well_formed code_vocabulary pdev_tx_rx 2 \<and>
   axidma_of_parse_dma_nodes pdev_tx_rx (dev_of 2) =
     (None, \<lparr>num_dma_tx_chans = 1, num_dma_rx_chans = 1, num_vdma_tx_chans = 0,
             num_vdma_rx_chans = 0, num_chans = 2,
             channels = [\<lparr>dir = AXIDMA_WRITE, type = AXIDMA_DMA, channel_id = 0\<rparr>,
                         \<lparr>dir = AXIDMA_READ, type = AXIDMA_DMA, channel_id = 1\<rparr>]\<rparr>)"
proof -
  have wf: "well_formed code_vocabulary pdev_tx_rx 2" by code_simp
  have n: "num_chans (dev_of 2) = 2" by (simp add: dev_of_def)
  have len: "length (channels (dev_of 2)) = nat 2" by (simp add: dev_of_def)
  have "axidma_of_parse_dma_nodes pdev_tx_rx (dev_of 2) =
     (None, \<lparr>num_dma_tx_chans = 1, num_dma_rx_chans = 1, num_vdma_tx_chans = 0,
             num_vdma_rx_chans = 0, num_chans = 2,
             channels = [\<lparr>dir = AXIDMA_WRITE, type = AXIDMA_DMA, channel_id = 0\<rparr>,
                         \<lparr>dir = AXIDMA_READ, type = AXIDMA_DMA, channel_id = 1\<rparr>]\<rparr>)"
    by code_simp
  with resolve_well_formed [OF wf n len] wf show ?thesis by simp
qed

text \<open>
  As stated, for the descriptions that are well-formed with the tags spelled as the
  specification does, the claim fails: in the scenario of the specification, with two
  channels tagged \<^verbatim>\<open>mm2s-dma\<close> and \<^verbatim>\<open>s2mm-dma\<close>, the count of declared channels
  is 2 and resolution fails at the first channel with an invalid \<^verbatim>\<open>compatible\<close>,
  no descriptor written and every counter at 0.
\<close>

theorem spec_scenario_not_resolved:
  "well_formed spec_vocabulary pdev_spec_scenario 2
   \<and> axidma_of_num_channels pdev_spec_scenario = Inr 2
   \<and> axidma_of_parse_dma_nodes pdev_spec_scenario (dev_of 2)
     = (Some Compatible_Invalid,
        \<lparr>num_dma_tx_chans = 0, num_dma_rx_chans = 0, num_vdma_tx_chans = 0,
          num_vdma_rx_chans = 0, num_chans = 2, channels = [chan0, chan0]\<rparr>)"
  by code_simp

section \<open>The vocabulary of type tags\<close>

text \<open>
  Claim C6, as amended. For every DMA core node with one or two children, the
  \<^verbatim>\<open>compatible\<close> string of the selected child determines the channel's engine type
  and direction by the four-entry vocabulary of the code:
  \<^verbatim>\<open>xlnx,axi-dma-mm2s-channel\<close> gives (DMA, write, that is to the device),
  \<^verbatim>\<open>xlnx,axi-dma-s2mm-channel\<close> gives (DMA, read, that is from the device),
  \<^verbatim>\<open>xlnx,axi-vdma-mm2s-channel\<close> gives (VDMA, write) and
  \<^verbatim>\<open>xlnx,axi-vdma-s2mm-channel\<close> gives (VDMA, read). Any other string makes
  \<^verbatim>\<open>axidma_of_parse_channel\<close> fail at the invalid-\<^verbatim>\<open>compatible\<close> check, and a missing
  property at the missing-\<^verbatim>\<open>compatible\<close> check, both with \<^verbatim>\<open>-EINVAL\<close> and with the
  channel and the device untouched.
\<close>

theorem compatible_vocabulary:
  assumes "1 \<le> of_get_child_count dma_node" and "of_get_child_count dma_node \<le> 2"
  shows
    "(of_property_read_string (selected_child dma_node channel) ''compatible''
        = Inr ''xlnx,axi-dma-mm2s-channel'' \<longrightarrow>
      (\<exists>dev'. axidma_of_parse_channel dma_node channel chan dev
          = (None, chan\<lparr>type := AXIDMA_DMA, dir := AXIDMA_WRITE\<rparr>, dev')))
   \<and> (of_property_read_string (selected_child dma_node channel) ''compatible''
        = Inr ''xlnx,axi-dma-s2mm-channel'' \<longrightarrow>
      (\<exists>dev'. axidma_of_parse_channel dma_node channel chan dev
          = (None, chan\<lparr>type := AXIDMA_DMA, dir := AXIDMA_READ\<rparr>, dev')))
   \<and> (of_property_read_string (selected_child dma_node channel) ''compatible''
        = Inr ''xlnx,axi-vdma-mm2s-channel'' \<longrightarrow>
      (\<exists>dev'. axidma_of_parse_channel dma_node channel chan dev
          = (None, chan\<lparr>type := AXIDMA_VDMA, dir := AXIDMA_WRITE\<rparr>, dev')))
   \<and> (of_property_read_string (selected_child dma_node channel) ''compatible''
        = Inr ''xlnx,axi-vdma-s2mm-channel'' \<longrightarrow>
      (\<exists>dev'. axidma_of_parse_channel dma_node channel chan dev
          = (None, chan\<lparr>type := AXIDMA_VDMA, dir := AXIDMA_READ\<rparr>, dev')))
   \<and> (\<forall>t. of_property_read_string (selected_child dma_node channel) ''compatible'' = Inr t
          \<and> t \<noteq> ''xlnx,axi-dma-mm2s-channel'' \<and> t \<noteq> ''xlnx,axi-dma-s2mm-channel''
          \<and> t \<noteq> ''xlnx,axi-vdma-mm2s-channel'' \<and> t \<noteq> ''xlnx,axi-vdma-s2mm-channel'' \<longrightarrow>
        axidma_of_parse_channel dma_node channel chan dev = (Some Compatible_Invalid, chan, dev))
   \<and> (of_find_property (selected_child dma_node channel) ''compatible'' = None \<longrightarrow>
        axidma_of_parse_channel dma_node channel chan dev = (Some Compatible_Missing, chan, dev))
   \<and> errno Compatible_Invalid = - EINVAL \<and> errno Compatible_Missing = - EINVAL"
proof -
  have present: "of_find_property (selected_child dma_node channel) ''compatible'' \<noteq> None"
    if "of_property_read_string (selected_child dma_node channel) ''compatible'' = Inr t" for t
    using that by (auto simp: of_property_read_string_def split: option.splits)
  have run: "axidma_of_parse_channel dma_node channel chan dev
               = axidma_parse_compatible_property t chan dev"
    if "of_property_read_string (selected_child dma_node channel) ''compatible'' = Inr t" for t
    using assms present [OF that] that by (auto simp: parse_channel_selected)
  have missing: "axidma_of_parse_channel dma_node channel chan dev
                   = (Some Compatible_Missing, chan, dev)"
    if "of_find_property (selected_child dma_node channel) ''compatible'' = None"
    using assms that by (simp add: parse_channel_selected)
  show ?thesis
    using missing
    by (auto simp: run axidma_parse_compatible_property_def)
qed

theorem compatible_vocabulary_witness:
  "1 \<le> of_get_child_count dma_core \<and> of_get_child_count dma_core \<le> 2
   \<and> of_property_read_string (selected_child dma_core 1) ''compatible''
        = Inr ''xlnx,axi-dma-s2mm-channel''
   \<and> (\<exists>dev'. axidma_of_parse_channel dma_core 1 chan0 (dev_of 2)
          = (None, chan0\<lparr>type := AXIDMA_DMA, dir := AXIDMA_READ\<rparr>, dev'))"
proof -
  have c1: "1 \<le> of_get_child_count dma_core" by code_simp
  have c2: "of_get_child_count dma_core \<le> 2" by code_simp
  have t: "of_property_read_string (selected_child dma_core 1) ''compatible''
        = Inr ''xlnx,axi-dma-s2mm-channel''" by code_simp
  from compatible_vocabulary [OF c1 c2, of 1 chan0 "dev_of 2"] t c1 c2
  show ?thesis by simp
qed

text \<open>
  As stated, with the tags spelled \<^verbatim>\<open>mm2s-dma\<close>, \<^verbatim>\<open>s2mm-dma\<close>, \<^verbatim>\<open>mm2s-vdma\<close> and
  \<^verbatim>\<open>s2mm-vdma\<close>, the claim fails: a child tagged \<^verbatim>\<open>mm2s-dma\<close> is rejected as an
  invalid \<^verbatim>\<open>compatible\<close>, and a child tagged \<^verbatim>\<open>xlnx,axi-dma-mm2s-channel\<close>, which
  is none of those four, resolves; a description whose one channel is tagged
  \<^verbatim>\<open>mm2s-dma\<close> fails to resolve.
\<close>

theorem short_tag_rejected:
  "of_property_read_string (selected_child short_tag_core 0) ''compatible'' = Inr ''mm2s-dma''
   \<and> axidma_of_parse_channel short_tag_core 0 chan0 (dev_of 1)
       = (Some Compatible_Invalid, chan0, dev_of 1)
   \<and> of_property_read_string (selected_child dma_core_one 0) ''compatible''
       = Inr ''xlnx,axi-dma-mm2s-channel''
   \<and> fst (axidma_of_parse_channel dma_core_one 0 chan0 (dev_of 1)) = None
   \<and> fst (axidma_of_parse_dma_nodes pdev_short_tag (dev_of 1)) = Some Compatible_Invalid"
  by code_simp

section \<open>The checks on a channel reference\<close>

text \<open>
  Claim C7, as amended. For every declared channel reference that
  \<^verbatim>\<open>of_parse_phandle_with_args\<close> delivers, the iteration fails with \<^verbatim>\<open>-EINVAL\<close> when
  the reference carries no argument (argument count below one), and when its first
  argument is neither 0 nor 1; a reference with more than one argument is not rejected
  for that. With a first argument of 0 or 1, the iteration fails with \<^verbatim>\<open>-EINVAL\<close>
  when the referenced DMA core node has no child or three or more children, and with
  one or two children none of these four checks fails. Each failure leaves the device
  untouched, and a failing iteration within \<^verbatim>\<open>num_chans\<close> makes
  \<^verbatim>\<open>axidma_of_parse_dma_nodes\<close> fail.
\<close>

theorem reference_checks:
  assumes "of_parse_phandle_with_args (of_node pdev) ''dmas'' ''#dma-cells'' i = Inr pa"
  shows
    "(args_count pa < 1 \<longrightarrow> parse_dma_node pdev i dev = (Some Channel_Arg_Missing, dev))
   \<and> (1 \<le> args_count pa \<and> sint (args pa ! 0) \<noteq> 0 \<and> sint (args pa ! 0) \<noteq> 1 \<longrightarrow>
        parse_dma_node pdev i dev = (Some Channel_Arg_Invalid, dev))
   \<and> (1 \<le> args_count pa \<and> (sint (args pa ! 0) = 0 \<or> sint (args pa ! 0) = 1) \<longrightarrow>
        (of_get_child_count (np pa) = 0 \<longrightarrow>
           parse_dma_node pdev i dev = (Some No_Channel_Nodes, dev))
      \<and> (3 \<le> of_get_child_count (np pa) \<longrightarrow>
           parse_dma_node pdev i dev = (Some Too_Many_Channel_Nodes, dev))
      \<and> (of_get_child_count (np pa) = 1 \<or> of_get_child_count (np pa) = 2 \<longrightarrow>
           fst (parse_dma_node pdev i dev) \<notin>
             {Some Channel_Arg_Missing, Some Channel_Arg_Invalid,
              Some No_Channel_Nodes, Some Too_Many_Channel_Nodes}))
   \<and> (0 \<le> i \<and> i < num_chans dev \<and> fst (parse_dma_node pdev i dev) \<noteq> None \<longrightarrow>
        fst (axidma_of_parse_dma_nodes pdev dev) \<noteq> None)
   \<and> errno Channel_Arg_Missing = - EINVAL \<and> errno Channel_Arg_Invalid = - EINVAL
   \<and> errno No_Channel_Nodes = - EINVAL \<and> errno Too_Many_Channel_Nodes = - EINVAL"
proof -
  have id: "dev\<lparr>channels := (channels dev)[nat i := channels dev ! nat i]\<rparr> = dev"
    by simp
  have missing: "parse_dma_node pdev i dev = (Some Channel_Arg_Missing, dev)"
    if "args_count pa < 1"
    using assms that by (simp add: parse_dma_node_def)
  have invalid: "parse_dma_node pdev i dev = (Some Channel_Arg_Invalid, dev)"
    if "1 \<le> args_count pa" "sint (args pa ! 0) \<noteq> 0" "sint (args pa ! 0) \<noteq> 1"
    using assms that by (simp add: parse_dma_node_def)
  have none: "parse_dma_node pdev i dev = (Some No_Channel_Nodes, dev)"
    if "1 \<le> args_count pa" "sint (args pa ! 0) = 0 \<or> sint (args pa ! 0) = 1"
      "of_get_child_count (np pa) = 0"
    using assms that by (auto simp: parse_dma_node_def parse_channel_selected)
  have many: "parse_dma_node pdev i dev = (Some Too_Many_Channel_Nodes, dev)"
    if "1 \<le> args_count pa" "sint (args pa ! 0) = 0 \<or> sint (args pa ! 0) = 1"
      "3 \<le> of_get_child_count (np pa)"
    using assms that by (auto simp: parse_dma_node_def parse_channel_selected)
  have pass: "fst (parse_dma_node pdev i dev) \<notin>
             {Some Channel_Arg_Missing, Some Channel_Arg_Invalid,
              Some No_Channel_Nodes, Some Too_Many_Channel_Nodes}"
    if "1 \<le> args_count pa" "sint (args pa ! 0) = 0 \<or> sint (args pa ! 0) = 1"
      "of_get_child_count (np pa) = 1 \<or> of_get_child_count (np pa) = 2"
    using parse_dma_node_fst_channel [OF assms that(1,2), of dev]
      parse_channel_errors [OF that(3), of "sint (args pa ! 0)" "channels dev ! nat i" dev]
    by auto
  have whole: "fst (axidma_of_parse_dma_nodes pdev dev) \<noteq> None"
    if "0 \<le> i" "i < num_chans dev" "fst (parse_dma_node pdev i dev) \<noteq> None"
    using that resolve_fails [of i dev pdev] by auto
  have errs: "errno Channel_Arg_Missing = - EINVAL" "errno Channel_Arg_Invalid = - EINVAL"
    "errno No_Channel_Nodes = - EINVAL" "errno Too_Many_Channel_Nodes = - EINVAL"
    by simp_all
  from missing invalid none many pass whole errs show ?thesis
    by blast
qed


theorem reference_checks_witness:
  "of_parse_phandle_with_args (of_node pdev_bad_second) ''dmas'' ''#dma-cells'' 1
     = Inr \<lparr>np = dma_core, args_count = 1, args = [2]\<rparr>
   \<and> parse_dma_node pdev_bad_second 1 (dev_of 2) = (Some Channel_Arg_Invalid, dev_of 2)
   \<and> fst (axidma_of_parse_dma_nodes pdev_bad_second (dev_of 2)) \<noteq> None"
proof -
  have pa: "of_parse_phandle_with_args (of_node pdev_bad_second) ''dmas'' ''#dma-cells'' 1
     = Inr \<lparr>np = dma_core, args_count = 1, args = [2]\<rparr>"
    by code_simp
  have n: "num_chans (dev_of 2) = 2" by (simp add: dev_of_def)
  from reference_checks [OF pa, of "dev_of 2"] pa n show ?thesis
    by simp
qed

text \<open>
  As stated, the claim fails in its middle part, that any argument count other than
  exactly one is rejected: a reference with the two arguments 0 and 5 resolves.
\<close>

theorem two_arguments_accepted:
  "of_parse_phandle_with_args (of_node pdev_two_args) ''dmas'' ''#dma-cells'' 0
     = Inr \<lparr>np = dma_core_one, args_count = 2, args = [0, 5]\<rparr>
   \<and> axidma_of_parse_dma_nodes pdev_two_args (dev_of 1)
     = (None, \<lparr>num_dma_tx_chans = 1, num_dma_rx_chans = 0, num_vdma_tx_chans = 0,
               num_vdma_rx_chans = 0, num_chans = 1,
               channels = [\<lparr>dir = AXIDMA_WRITE, type = AXIDMA_DMA, channel_id = 0\<rparr>]\<rparr>)"
  by code_simp

section \<open>Counting the declared channels\<close>

text \<open>
  Claim C8, as amended. \<^verbatim>\<open>axidma_of_num_channels\<close> validates the two companion
  lists and returns their shared length: it succeeds with \<open>n\<close> exactly when both
  \<^verbatim>\<open>dma-names\<close> and \<^verbatim>\<open>dmas\<close> count \<open>n > 0\<close> entries, fails when either property is
  missing or \<^verbatim>\<open>dmas\<close> is empty, and fails with \<^verbatim>\<open>-EINVAL\<close> at the length check when
  both are non-empty and their lengths differ. \<^verbatim>\<open>axidma_of_parse_dma_nodes\<close> applies
  none of this validation: its outcome depends on the \<^verbatim>\<open>dmas\<close> property and the
  device alone, not on \<^verbatim>\<open>dma-names\<close>.
\<close>

theorem num_channels_validation:
  "(axidma_of_num_channels pdev = Inr n \<longleftrightarrow>
      0 < n \<and> of_property_count_strings (of_node pdev) ''dma-names'' = n
            \<and> of_count_phandle_with_args (of_node pdev) ''dmas'' ''#dma-cells'' = n)
   \<and> (of_find_property (of_node pdev) ''dma-names'' = None \<longrightarrow>
        axidma_of_num_channels pdev = Inl Dma_Names_Missing)
   \<and> (of_find_property (of_node pdev) ''dma-names'' \<noteq> None
        \<and> of_find_property (of_node pdev) ''dmas'' = None \<longrightarrow>
        axidma_of_num_channels pdev = Inl Dmas_Missing)
   \<and> (0 < of_property_count_strings (of_node pdev) ''dma-names''
        \<and> of_count_phandle_with_args (of_node pdev) ''dmas'' ''#dma-cells'' = 0 \<longrightarrow>
        axidma_of_num_channels pdev = Inl Dmas_Empty)
   \<and> (0 < of_property_count_strings (of_node pdev) ''dma-names''
        \<and> 0 < of_count_phandle_with_args (of_node pdev) ''dmas'' ''#dma-cells''
        \<and> of_property_count_strings (of_node pdev) ''dma-names''
            \<noteq> of_count_phandle_with_args (of_node pdev) ''dmas'' ''#dma-cells'' \<longrightarrow>
        axidma_of_num_channels pdev = Inl Lengths_Differ)
   \<and> errno Lengths_Differ = - EINVAL
   \<and> (\<forall>pdev'. of_find_property (of_node pdev') ''dmas''
                  = of_find_property (of_node pdev) ''dmas'' \<longrightarrow>
          axidma_of_parse_dma_nodes pdev' dev = axidma_of_parse_dma_nodes pdev dev)"
proof -
  have names: "of_find_property (of_node pdev) ''dma-names'' \<noteq> None"
    if "0 < of_property_count_strings (of_node pdev) ''dma-names''"
    using that by (auto simp: of_property_count_strings_def EINVAL_def split: option.splits)
  have dmas: "of_find_property (of_node pdev) ''dmas'' \<noteq> None"
    if "0 \<le> of_count_phandle_with_args (of_node pdev) ''dmas'' ''#dma-cells''"
    using that by (auto simp: of_count_phandle_with_args_def ENOENT_def split: option.splits)
  have iff: "axidma_of_num_channels pdev = Inr n \<longleftrightarrow>
      0 < n \<and> of_property_count_strings (of_node pdev) ''dma-names'' = n
            \<and> of_count_phandle_with_args (of_node pdev) ''dmas'' ''#dma-cells'' = n"
    using names dmas by (auto simp: axidma_of_num_channels_def Let_def split: if_splits)
  have m1: "axidma_of_num_channels pdev = Inl Dma_Names_Missing"
    if "of_find_property (of_node pdev) ''dma-names'' = None"
    using that by (auto simp: axidma_of_num_channels_def Let_def)
  have m2: "axidma_of_num_channels pdev = Inl Dmas_Missing"
    if "of_find_property (of_node pdev) ''dma-names'' \<noteq> None"
       "of_find_property (of_node pdev) ''dmas'' = None"
    using that by (auto simp: axidma_of_num_channels_def Let_def)
  have e2: "axidma_of_num_channels pdev = Inl Dmas_Empty"
    if "0 < of_property_count_strings (of_node pdev) ''dma-names''"
       "of_count_phandle_with_args (of_node pdev) ''dmas'' ''#dma-cells'' = 0"
    using that names dmas by (auto simp: axidma_of_num_channels_def Let_def)
  have d: "axidma_of_num_channels pdev = Inl Lengths_Differ"
    if "0 < of_property_count_strings (of_node pdev) ''dma-names''"
       "0 < of_count_phandle_with_args (of_node pdev) ''dmas'' ''#dma-cells''"
       "of_property_count_strings (of_node pdev) ''dma-names''
            \<noteq> of_count_phandle_with_args (of_node pdev) ''dmas'' ''#dma-cells''"
    using that names dmas by (auto simp: axidma_of_num_channels_def Let_def)
  have r: "axidma_of_parse_dma_nodes pdev' dev = axidma_of_parse_dma_nodes pdev dev"
    if "of_find_property (of_node pdev') ''dmas'' = of_find_property (of_node pdev) ''dmas''"
    for pdev'
    using loop_dmas_only [OF that] by (simp add: axidma_of_parse_dma_nodes_def)
  have err: "errno Lengths_Differ = - EINVAL" by simp
  from iff m1 m2 e2 d r err show ?thesis by blast
qed

theorem num_channels_validation_witness:
  "of_property_count_strings (of_node pdev_mismatch) ''dma-names'' = 2
   \<and> of_count_phandle_with_args (of_node pdev_mismatch) ''dmas'' ''#dma-cells'' = 1
   \<and> axidma_of_num_channels pdev_mismatch = Inl Lengths_Differ
   \<and> axidma_of_num_channels pdev_tx_rx = Inr 2"
proof -
  have a: "of_property_count_strings (of_node pdev_mismatch) ''dma-names'' = 2" by code_simp
  have b: "of_count_phandle_with_args (of_node pdev_mismatch) ''dmas'' ''#dma-cells'' = 1"
    by code_simp
  have c: "of_property_count_strings (of_node pdev_tx_rx) ''dma-names'' = 2" by code_simp
  have d: "of_count_phandle_with_args (of_node pdev_tx_rx) ''dmas'' ''#dma-cells'' = 2"
    by code_simp
  from num_channels_validation [of pdev_mismatch 2 "dev_of 1"]
       num_channels_validation [of pdev_tx_rx 2 "dev_of 2"] a b c d
  show ?thesis by simp
qed

text \<open>
  As stated, the claim fails for resolve: with two names and one reference,
  \<^verbatim>\<open>axidma_of_num_channels\<close> fails at the length check, while
  \<^verbatim>\<open>axidma_of_parse_dma_nodes\<close>, run for the one declared reference, succeeds; run for
  two channels, it fails on the absent second reference with \<^verbatim>\<open>-ENOENT\<close>, not at a
  length check.
\<close>

theorem resolve_ignores_length_mismatch:
  "axidma_of_num_channels pdev_mismatch = Inl Lengths_Differ
   \<and> axidma_of_parse_dma_nodes pdev_mismatch (dev_of 1)
     = (None, \<lparr>num_dma_tx_chans = 1, num_dma_rx_chans = 0, num_vdma_tx_chans = 0,
               num_vdma_rx_chans = 0, num_chans = 1,
               channels = [\<lparr>dir = AXIDMA_WRITE, type = AXIDMA_DMA, channel_id = 0\<rparr>]\<rparr>)
   \<and> fst (axidma_of_parse_dma_nodes pdev_mismatch (dev_of 2)) = Some (Phandle_Unavailable (- 2))
   \<and> errno (Phandle_Unavailable (- 2)) \<noteq> errno Lengths_Differ"
  by code_simp

section \<open>Selecting the second sub-channel of a one-channel DMA core\<close>

text \<open>
  Claim C10. For every DMA core node with exactly one child node,
  \<^verbatim>\<open>axidma_of_parse_channel\<close> called with channel 1 returns an error and leaves the
  channel and the device as they were: the lookup of the second child yields NULL, so
  the check for the \<^verbatim>\<open>compatible\<close> property fails as a missing property
  (\<^verbatim>\<open>-EINVAL\<close>).
\<close>

theorem one_child_selector_one:
  "length (child_nodes dma_node) = 1 \<Longrightarrow>
     of_get_next_child dma_node (of_get_next_child dma_node None) = None
     \<and> axidma_of_parse_channel dma_node 1 chan dev = (Some Compatible_Missing, chan, dev)
     \<and> errno Compatible_Missing = - EINVAL"
proof -
  assume "length (child_nodes dma_node) = 1"
  then obtain c where c: "child_nodes dma_node = [c]"
    by (cases "child_nodes dma_node") auto
  then show ?thesis
    by (simp add: axidma_of_parse_channel_def of_get_child_count_def)
qed

theorem one_child_selector_one_witness:
  "length (child_nodes dma_core_one) = 1 \<and>
   axidma_of_parse_channel dma_core_one 1 chan0 (dev_of 2) = (Some Compatible_Missing, chan0, (dev_of 2))"
  using one_child_selector_one [of dma_core_one chan0 "dev_of 2"]
  by (simp add: dma_core_one_def)

section \<open>Opening and releasing the device\<close>

text \<open>
  Claim C1, as amended. The number of live sessions of a device is not limited to one:
  for every state of an initialised device, reached by any sequence of open and release
  calls, an open by a privileged caller that asks for exclusive access succeeds whether
  or not sessions are live, records the device in the new file and leaves the live
  sessions as they are; there is no failure for a device that is already open. A
  release always succeeds: \<^verbatim>\<open>axidma_release\<close> returns 0 for every file and clears the
  device recorded in it, and the session is dropped. After a release a subsequent open
  from a privileged, exclusive caller succeeds.
\<close>

theorem open_whatever_is_live:
  assumes "flags AND O_EXCL \<noteq> 0"
  shows "chrdev_step axidma_dev files (Open True flags)
           = (None, files @ [\<lparr>f_flags = flags, private_data = axidma_dev\<rparr>])
       \<and> fst (chrdev_step axidma_dev (snd (chrdev_run axidma_dev files reqs)) (Open True flags))
           = None
       \<and> axidma_release f = (0, f\<lparr>private_data := None\<rparr>)
       \<and> (k < length files \<longrightarrow>
            chrdev_step axidma_dev files (Release k) = (None, take k files @ drop (Suc k) files)
          \<and> fst (chrdev_step axidma_dev (snd (chrdev_step axidma_dev files (Release k)))
                   (Open True flags)) = None)"
  using assms by (simp add: axidma_open_def axidma_release_def)

theorem open_whatever_is_live_witness:
  "flags_excl AND O_EXCL \<noteq> 0
   \<and> chrdev_step the_dev [\<lparr>f_flags = flags_excl, private_data = the_dev\<rparr>] (Open True flags_excl)
       = (None, [\<lparr>f_flags = flags_excl, private_data = the_dev\<rparr>,
                 \<lparr>f_flags = flags_excl, private_data = the_dev\<rparr>])
   \<and> axidma_release \<lparr>f_flags = flags_excl, private_data = the_dev\<rparr>
       = (0, \<lparr>f_flags = flags_excl, private_data = None\<rparr>)
   \<and> chrdev_step the_dev [\<lparr>f_flags = flags_excl, private_data = the_dev\<rparr>] (Release 0)
       = (None, [])
   \<and> fst (chrdev_step the_dev [] (Open True flags_excl)) = None"
proof -
  have h: "flags_excl AND O_EXCL \<noteq> 0"
    by (simp add: flags_excl_def O_EXCL_def)
  from open_whatever_is_live [OF h, where axidma_dev = the_dev
         and files = "[\<lparr>f_flags = flags_excl, private_data = the_dev\<rparr>]"
         and reqs = "[]" and k = 0
         and f = "\<lparr>f_flags = flags_excl, private_data = the_dev\<rparr>"] h
  show ?thesis by simp
qed

text \<open>
  As stated, the claim fails: on a device with no live session, two opens in a row by
  privileged callers asking for exclusive access both return 0, and two sessions are
  live.
\<close>

theorem second_open_succeeds:
  "chrdev_run the_dev [] [Open True flags_excl, Open True flags_excl]
     = ([None, None],
        [\<lparr>f_flags = flags_excl, private_data = the_dev\<rparr>,
         \<lparr>f_flags = flags_excl, private_data = the_dev\<rparr>])"
  by (simp add: axidma_open_def flags_excl_def O_EXCL_def)

section \<open>Mapping the buffer\<close>

text \<open>
  Claim C2, as amended. For every requested area, whatever its offset and length,
  \<^verbatim>\<open>axidma_mmap\<close> checks no range: it marks the area non-cached, hands the request
  for \<^verbatim>\<open>vm_end - vm_start\<close> bytes at the page frame of the buffer's base to
  \<^verbatim>\<open>remap_pfn_range\<close>, succeeds exactly when that call does not return a negative
  value, and otherwise returns that value.
\<close>

theorem mmap_delegates:
  "snd (axidma_mmap mm base vma) = vma\<lparr>vm_page_prot := pgprot_noncached mm (vm_page_prot vma)\<rparr>
   \<and> (fst (axidma_mmap mm base vma) = None \<longleftrightarrow>
        0 \<le> remap_pfn_range mm (vma\<lparr>vm_page_prot := pgprot_noncached mm (vm_page_prot vma)\<rparr>)
               (vm_start vma) (virt_to_pfn mm base) (vm_end vma - vm_start vma)
               (pgprot_noncached mm (vm_page_prot vma)))
   \<and> (\<forall>rc. rc = remap_pfn_range mm (vma\<lparr>vm_page_prot := pgprot_noncached mm (vm_page_prot vma)\<rparr>)
               (vm_start vma) (virt_to_pfn mm base) (vm_end vma - vm_start vma)
               (pgprot_noncached mm (vm_page_prot vma)) \<and> rc < 0 \<longrightarrow>
        fst (axidma_mmap mm base vma) = Some (Remap_Failed rc)
        \<and> chrdev_errno (Remap_Failed rc) = rc)"
  by (auto simp: axidma_mmap_def Let_def)

theorem mmap_delegates_witness:
  "axidma_mmap mm_failing 0xC2000000 vma_huge
     = (Some (Remap_Failed (- 11)), vma_huge\<lparr>vm_page_prot := 0x03\<rparr>)
   \<and> fst (axidma_mmap mm_ok 0xC2000000 vma_huge) = None"
proof -
  have a: "remap_pfn_range mm_failing v a p s q = - 11" for v a p s q
    by (simp add: mm_failing_def)
  have b: "remap_pfn_range mm_ok v a p s q = 0" for v a p s q
    by (simp add: mm_ok_def)
  have c: "pgprot_noncached mm_failing (vm_page_prot vma_huge) = 0x03"
    by (simp add: mm_failing_def mm_ok_def vma_huge_def)
  from mmap_delegates [where mm = mm_failing and base = "0xC2000000" and vma = vma_huge]
       mmap_delegates [where mm = mm_ok and base = "0xC2000000" and vma = vma_huge] a b c
  show ?thesis
    by (cases "axidma_mmap mm_failing 0xC2000000 vma_huge") simp
qed

text \<open>
  As stated, the claim fails: a request for 1 GiB at an offset of 4 GiB, beyond any
  buffer of a 32-bit machine, succeeds when the kernel's mapping call does.
\<close>

theorem mmap_beyond_any_buffer:
  "2 ^ 32 < unat (vm_pgoff vma_huge) * 4096 + unat (vm_end vma_huge - vm_start vma_huge)
   \<and> axidma_mmap mm_ok 0xC2000000 vma_huge = (None, vma_huge\<lparr>vm_page_prot := 0x03\<rparr>)"
  by (simp add: axidma_mmap_def vma_huge_def mm_ok_def)

section \<open>Callers that may not open the device\<close>

text \<open>
  Claim C9. For every caller, an open without \<^verbatim>\<open>CAP_SYS_ADMIN\<close> fails with
  \<^verbatim>\<open>-EPERM\<close>, and an open by a privileged caller whose flags do not contain
  \<^verbatim>\<open>O_EXCL\<close> fails with \<^verbatim>\<open>-EINVAL\<close>; in both cases the file is left as it was
  (no device recorded in its private data) and no session is added to the live ones.
\<close>

theorem open_rejections:
  "axidma_open False axidma_dev file = (Some Not_Root, file)
   \<and> chrdev_errno Not_Root = - EPERM
   \<and> chrdev_step axidma_dev files (Open False flags) = (Some Not_Root, files)
   \<and> (f_flags file AND O_EXCL = 0 \<longrightarrow>
        axidma_open True axidma_dev file = (Some Excl_Required, file))
   \<and> chrdev_errno Excl_Required = - EINVAL
   \<and> (flags AND O_EXCL = 0 \<longrightarrow>
        chrdev_step axidma_dev files (Open True flags) = (Some Excl_Required, files))"
  by (simp add: axidma_open_def)

theorem open_rejections_witness:
  "flags_shared AND O_EXCL = 0
   \<and> axidma_open True the_dev \<lparr>f_flags = flags_shared, private_data = None\<rparr>
       = (Some Excl_Required, \<lparr>f_flags = flags_shared, private_data = None\<rparr>)
   \<and> chrdev_step the_dev [] (Open True flags_shared) = (Some Excl_Required, [])"
proof -
  have h: "flags_shared AND O_EXCL = 0"
    by (simp add: flags_shared_def O_EXCL_def)
  from open_rejections [of the_dev "\<lparr>f_flags = flags_shared, private_data = None\<rparr>" "[]" flags_shared] h
  show ?thesis by simp
qed

end
